theory Spec2Isabelle
  imports Main
begin

unbundle bit_operations_syntax

section \<open>Python values\<close>

text \<open>
  A Python \<open>str\<close> is a sequence of Unicode code points (\<open>ord c\<close>, an integer in
  \<open>range(0x110000)\<close>, lone surrogates included); a \<open>bytes\<close> object is a sequence of
  integers in \<open>range(256)\<close>. Both are lists of \<open>int\<close>. \<open>py\<close> writes a literal.
\<close>

type_synonym pystr = "int list"
type_synonym pybytes = "int list"

definition py :: "string \<Rightarrow> pystr" where
  "py s = map of_char s"

text \<open>
  The exceptions of network and file operations that are not a \<open>ValueError\<close>: the ones
  the docstring lists (\<open>URLError\<close>, \<open>HTTPError\<close>, \<open>OSError\<close> with its subclasses) and
  \<open>http.client.HTTPException\<close>. File operations raise \<open>OSError\<close> only.
\<close>

datatype io_error = URLError string | HTTPError int | HTTPException string | OSError string

text \<open>
  What \<open>urllib.request.urlopen\<close> can raise. Besides the errors above it raises
  subclasses of \<open>ValueError\<close>: \<open>UnicodeEncodeError\<close> when the request line is not
  ASCII (\<open>http.client\<close> encodes it with \<open>request.encode('ascii')\<close>, and the handler
  wraps \<open>OSError\<close> only), \<open>UnicodeError\<close> from the IDNA codec for the host. Any other
  exception class (an \<open>OverflowError\<close> for a port out of range) is \<open>UrlOtherError\<close>.
\<close>

datatype urlopen_error = UrlFailed io_error | UrlValueError string | UrlOtherError string

text \<open>
  The exceptions of the function. \<open>ParseError\<close> is a \<open>ValueError\<close> raised inside
  \<open>urlparse\<close>, \<open>UnsupportedScheme\<close> the \<open>ValueError\<close> of line 22 (it carries the parsed
  scheme), \<open>UnicodeEncodeError\<close> (a subclass of \<open>ValueError\<close>) comes from
  \<open>url.encode("utf-8")\<close> and carries the offending code point, \<open>UrlopenValueError\<close> is
  a \<open>ValueError\<close> raised inside \<open>urlopen\<close>.
\<close>

datatype exn =
    ParseError string
  | UnsupportedScheme pystr
  | UnicodeEncodeError int
  | UrlopenValueError string
  | UrlopenOtherError string
  | Failed io_error

fun is_ValueError :: "exn \<Rightarrow> bool" where
  "is_ValueError (ParseError _) = True"
| "is_ValueError (UnsupportedScheme _) = True"
| "is_ValueError (UnicodeEncodeError _) = True"
| "is_ValueError (UrlopenValueError _) = True"
| "is_ValueError (UrlopenOtherError _) = False"
| "is_ValueError (Failed _) = False"

fun raised :: "urlopen_error \<Rightarrow> exn" where
  "raised (UrlFailed e) = Failed e"
| "raised (UrlValueError m) = UrlopenValueError m"
| "raised (UrlOtherError m) = UrlopenOtherError m"

section \<open>The world: files, network, injected failures\<close>

datatype node = File pybytes | Dir

text \<open>
  Every call that touches the network or the file system is recorded, in order.
  \<open>OpenExcl\<close> is the \<open>os.open\<close> with \<open>O_CREAT | O_EXCL\<close> of \<open>tempfile\<close>.
\<close>

datatype event =
    Exists pystr
  | UrlOpen pystr
  | Read nat
  | OpenExcl pystr
  | OpenWB pystr
  | Write pystr nat
  | Close pystr
  | Replace pystr pystr
  | Remove pystr

text \<open>
  The state a call starts in: the files, the operations so far, and the module global
  \<open>tempfile.tempdir\<close>, which is \<open>None\<close> until the first \<open>gettempdir()\<close> of the
  process has found a directory.
\<close>

record world =
  files :: "pystr \<rightharpoonup> node"
  trace :: "event list"
  tempdir_cache :: "pystr option"

text \<open>
  A response delivers \<open>body\<close>; then \<open>read\<close> either raises (\<open>failure = Some e\<close>) or
  returns the empty bytes object (\<open>failure = None\<close>). \<open>missing\<close> is the rest of the
  entity, which never arrives: it is empty for a complete transfer and not empty when
  the server closes the connection early, which \<open>read(amt)\<close> of \<open>http.client\<close> reports
  as the end of the stream, without an exception.
\<close>

record response =
  body :: pybytes
  failure :: "io_error option"
  missing :: pybytes

text \<open>
  What the function does not decide itself: the candidate directories and the random
  scratch names of \<open>tempfile\<close>, the checks of \<open>urllib.parse\<close> on an authority with
  brackets and on one that is not ASCII (they differ between versions of the library
  and need \<open>ipaddress\<close> and \<open>unicodedata\<close>), the answer of the network, and the
  failures of the operating system (permissions, a full disk) at each file operation,
  each an \<open>OSError\<close> with the given text.
\<close>

record env =
  candidate_dirs :: "pystr list"
  scratch_names :: "pystr list"
  fail_scratch_open :: "pystr \<Rightarrow> string option"
  fail_scratch_write :: "pystr \<Rightarrow> string option"
  fail_scratch_unlink :: "pystr \<Rightarrow> string option"
  check_bracketed_netloc :: "pystr \<Rightarrow> bool"
  checknetloc_nfkc :: "pystr \<Rightarrow> bool"
  net_urlopen :: "pystr \<Rightarrow> urlopen_error + response"
  fail_open :: "pystr \<Rightarrow> string option"
  fail_write :: "nat \<Rightarrow> string option"
  fail_close :: "string option"
  fail_replace :: "string option"
  fail_remove :: "string option"

definition log :: "event \<Rightarrow> world \<Rightarrow> world" where
  "log ev w = w\<lparr>trace := trace w @ [ev]\<rparr>"

section \<open>urllib.parse.urlparse: the scheme\<close>

text \<open>
  \<open>urlsplit\<close> of CPython (3.11.4 and later): strip leading C0 controls and spaces,
  delete tab, CR and LF, take the text before the first colon as the scheme when it
  starts with an ASCII letter and holds only \<open>scheme_chars\<close>, lowercased; then, for a
  \<open>//\<close> authority, the check for a bracket without its partner, the check of an
  authority with both brackets (\<open>_check_bracketed_host\<close> in 3.11,
  \<open>_check_bracketed_netloc\<close> in later versions: a parameter) and \<open>_checknetloc\<close>.
  Only \<open>parsed.scheme\<close> is used by the caller.
\<close>

definition lstrip_c0 :: "pystr \<Rightarrow> pystr" where
  "lstrip_c0 url = dropWhile (\<lambda>c. 0 \<le> c \<and> c \<le> 32) url"

definition remove_unsafe :: "pystr \<Rightarrow> pystr" where
  "remove_unsafe url = filter (\<lambda>c. c \<noteq> 9 \<and> c \<noteq> 13 \<and> c \<noteq> 10) url"

definition is_ascii_alpha :: "int \<Rightarrow> bool" where
  "is_ascii_alpha c = ((97 \<le> c \<and> c \<le> 122) \<or> (65 \<le> c \<and> c \<le> 90))"

definition scheme_char :: "int \<Rightarrow> bool" where
  "scheme_char c = (is_ascii_alpha c \<or> (48 \<le> c \<and> c \<le> 57) \<or> c = 43 \<or> c = 45 \<or> c = 46)"

definition lower_char :: "int \<Rightarrow> int" where
  "lower_char c = (if 65 \<le> c \<and> c \<le> 90 then c + 32 else c)"

definition split_scheme :: "pystr \<Rightarrow> pystr \<times> pystr" where
  "split_scheme url =
     (let pre = takeWhile (\<lambda>c. c \<noteq> 58) url
      in if 58 \<in> set url \<and> pre \<noteq> [] \<and> is_ascii_alpha (hd pre) \<and> list_all scheme_char pre
         then (map lower_char pre, drop (length pre + 1) url)
         else ([], url))"

definition splitnetloc :: "pystr \<Rightarrow> pystr" where
  "splitnetloc url = takeWhile (\<lambda>c. c \<noteq> 47 \<and> c \<noteq> 63 \<and> c \<noteq> 35) (drop 2 url)"

definition is_ascii :: "pystr \<Rightarrow> bool" where
  "is_ascii s = list_all (\<lambda>c. c < 128) s"

definition check_netloc :: "env \<Rightarrow> pystr \<Rightarrow> exn option" where
  "check_netloc env netloc =
     (if (91 \<in> set netloc \<and> 93 \<notin> set netloc) \<or> (93 \<in> set netloc \<and> 91 \<notin> set netloc)
      then Some (ParseError ''Invalid IPv6 URL'')
      else if 91 \<in> set netloc \<and> 93 \<in> set netloc \<and> \<not> check_bracketed_netloc env netloc
      then Some (ParseError ''invalid bracketed host'')
      else if netloc = [] \<or> is_ascii netloc then None
      else if checknetloc_nfkc env netloc then None
      else Some (ParseError ''netloc contains invalid characters under NFKC normalization''))"

definition urlparse :: "env \<Rightarrow> pystr \<Rightarrow> exn + pystr" where
  "urlparse env url =
     (let (scheme, rest) = split_scheme (remove_unsafe (lstrip_c0 url))
      in if take 2 rest = [47, 47]
         then (case check_netloc env (splitnetloc rest) of
                 Some e \<Rightarrow> Inl e
               | None \<Rightarrow> Inr scheme)
         else Inr scheme)"

section \<open>str.encode("utf-8")\<close>

definition utf8_char :: "int \<Rightarrow> exn + pybytes" where
  "utf8_char c =
     (if c < 128 then Inr [c]
      else if c < 2048 then Inr [192 + c div 64, 128 + c mod 64]
      else if 55296 \<le> c \<and> c \<le> 57343 then Inl (UnicodeEncodeError c)
      else if c < 65536 then Inr [224 + c div 4096, 128 + (c div 64) mod 64, 128 + c mod 64]
      else Inr [240 + c div 262144, 128 + (c div 4096) mod 64,
                128 + (c div 64) mod 64, 128 + c mod 64])"

fun encode_utf8 :: "pystr \<Rightarrow> exn + pybytes" where
  "encode_utf8 [] = Inr []"
| "encode_utf8 (c # cs) =
     (case utf8_char c of
        Inl e \<Rightarrow> Inl e
      | Inr bs \<Rightarrow> (case encode_utf8 cs of Inl e \<Rightarrow> Inl e | Inr rest \<Rightarrow> Inr (bs @ rest)))"

section \<open>hashlib.sha256(...).hexdigest()\<close>

text \<open>
  SHA-256 as in FIPS 180-4, on 32-bit words kept as integers with the reduction modulo
  \<open>2 ^ 32\<close> written out.
\<close>

definition m32 :: "int \<Rightarrow> int" where
  "m32 x = x mod 4294967296"

definition rotr :: "nat \<Rightarrow> int \<Rightarrow> int" where
  "rotr n x = (x div 2 ^ n) OR m32 (x * 2 ^ (32 - n))"

definition K256 :: "int list" where
  "K256 = [
   0x428A2F98, 0x71374491, 0xB5C0FBCF, 0xE9B5DBA5, 0x3956C25B, 0x59F111F1, 0x923F82A4, 0xAB1C5ED5,
   0xD807AA98, 0x12835B01, 0x243185BE, 0x550C7DC3, 0x72BE5D74, 0x80DEB1FE, 0x9BDC06A7, 0xC19BF174,
   0xE49B69C1, 0xEFBE4786, 0x0FC19DC6, 0x240CA1CC, 0x2DE92C6F, 0x4A7484AA, 0x5CB0A9DC, 0x76F988DA,
   0x983E5152, 0xA831C66D, 0xB00327C8, 0xBF597FC7, 0xC6E00BF3, 0xD5A79147, 0x06CA6351, 0x14292967,
   0x27B70A85, 0x2E1B2138, 0x4D2C6DFC, 0x53380D13, 0x650A7354, 0x766A0ABB, 0x81C2C92E, 0x92722C85,
   0xA2BFE8A1, 0xA81A664B, 0xC24B8B70, 0xC76C51A3, 0xD192E819, 0xD6990624, 0xF40E3585, 0x106AA070,
   0x19A4C116, 0x1E376C08, 0x2748774C, 0x34B0BCB5, 0x391C0CB3, 0x4ED8AA4A, 0x5B9CCA4F, 0x682E6FF3,
   0x748F82EE, 0x78A5636F, 0x84C87814, 0x8CC70208, 0x90BEFFFA, 0xA4506CEB, 0xBEF9A3F7, 0xC67178F2]"

definition H256 :: "int list" where
  "H256 = [0x6A09E667, 0xBB67AE85, 0x3C6EF372, 0xA54FF53A,
           0x510E527F, 0x9B05688C, 0x1F83D9AB, 0x5BE0CD19]"

definition be64 :: "int \<Rightarrow> pybytes" where
  "be64 n = map (\<lambda>k. (n div 256 ^ k) mod 256) [7, 6, 5, 4, 3, 2, 1, 0]"

definition pad :: "pybytes \<Rightarrow> pybytes" where
  "pad m = m @ [128] @ replicate ((119 - length m mod 64) mod 64) 0 @ be64 (8 * int (length m))"

fun words32 :: "pybytes \<Rightarrow> int list" where
  "words32 (a # b # c # d # bs) = (((a * 256 + b) * 256 + c) * 256 + d) # words32 bs"
| "words32 _ = []"

fun schedule :: "nat \<Rightarrow> int list \<Rightarrow> int list" where
  "schedule 0 w = w"
| "schedule (Suc n) w =
     (let l = length w;
          w15 = w ! (l - 15); w2 = w ! (l - 2);
          s0 = rotr 7 w15 XOR rotr 18 w15 XOR (w15 div 2 ^ 3);
          s1 = rotr 17 w2 XOR rotr 19 w2 XOR (w2 div 2 ^ 10)
      in schedule n (w @ [m32 (w ! (l - 16) + s0 + w ! (l - 7) + s1)]))"

fun round256 :: "int list \<Rightarrow> int \<times> int \<Rightarrow> int list" where
  "round256 [a, b, c, d, e, f, g, h] (k, w) =
     (let S1 = rotr 6 e XOR rotr 11 e XOR rotr 25 e;
          ch = (e AND f) XOR ((4294967295 - e) AND g);
          t1 = h + S1 + ch + k + w;
          S0 = rotr 2 a XOR rotr 13 a XOR rotr 22 a;
          maj = (a AND b) XOR (a AND c) XOR (b AND c);
          t2 = S0 + maj
      in [m32 (t1 + t2), a, b, c, m32 (d + t1), e, f, g])"
| "round256 s _ = s"

definition compress :: "int list \<Rightarrow> int list \<Rightarrow> int list" where
  "compress hs blk =
     map2 (\<lambda>x y. m32 (x + y)) hs (foldl round256 hs (zip K256 (schedule 48 blk)))"

fun blocks :: "int list \<Rightarrow> int list \<Rightarrow> int list" where
  "blocks hs ws =
     (if length ws < 16 then hs else blocks (compress hs (take 16 ws)) (drop 16 ws))"

declare blocks.simps [simp del]

definition sha256 :: "pybytes \<Rightarrow> int list" where
  "sha256 m = blocks H256 (words32 (pad m))"

definition hexdigit :: "int \<Rightarrow> int" where
  "hexdigit d = (if d < 10 then 48 + d else 87 + d)"

definition hex32 :: "int \<Rightarrow> pystr" where
  "hex32 x = map (\<lambda>k. hexdigit ((x div 16 ^ k) mod 16)) [7, 6, 5, 4, 3, 2, 1, 0]"

definition hexdigest :: "pybytes \<Rightarrow> pystr" where
  "hexdigest m = concat (map hex32 (sha256 m))"

section \<open>os.path and tempfile\<close>

text \<open>\<open>posixpath.join\<close> for two components.\<close>

definition os_path_join :: "pystr \<Rightarrow> pystr \<Rightarrow> pystr" where
  "os_path_join a b =
     (if take 1 b = [47] then b
      else if a = [] \<or> last a = 47 then a @ b
      else a @ [47] @ b)"

definition os_path_exists :: "pystr \<Rightarrow> world \<Rightarrow> bool \<times> world" where
  "os_path_exists p w = (files w p \<noteq> None, log (Exists p) w)"

text \<open>
  \<open>tempfile._get_default_tempdir\<close> tries the candidate directories in order. In a
  directory it takes the next random name, creates that file with
  \<open>os.open(..., O_CREAT | O_EXCL)\<close>, writes \<open>b'blat'\<close>, closes it and unlinks it (the
  unlink is in a \<open>finally\<close>), and returns the directory when nothing raised. A
  \<open>FileExistsError\<close> leads to the next name, at most 100 names for a directory; any
  other \<open>OSError\<close> leads to the next directory. The candidate directories are
  taken as absolute paths, the names as the sequence that \<open>next(namer)\<close> yields, and
  the paths are joined as on POSIX. One attempt:
\<close>

datatype attempt = Found | NextName | NextDir

definition scratch_attempt :: "env \<Rightarrow> pystr \<Rightarrow> world \<Rightarrow> attempt \<times> world" where
  "scratch_attempt env filename w =
     (if files w filename \<noteq> None then (NextName, log (OpenExcl filename) w)
      else
        (case fail_scratch_open env filename of
           Some m \<Rightarrow> (NextDir, log (OpenExcl filename) w)
         | None \<Rightarrow>
             (let w1 = log (OpenExcl filename) (w\<lparr>files := (files w)(filename \<mapsto> File [])\<rparr>);
                  w2 = (case fail_scratch_write env filename of
                          Some m \<Rightarrow> log (Write filename 4) w1
                        | None \<Rightarrow> log (Write filename 4)
                                    (w1\<lparr>files := (files w1)(filename \<mapsto> File (py ''blat''))\<rparr>));
                  w3 = log (Close filename) w2;
                  w4 = (case fail_scratch_unlink env filename of
                          Some m \<Rightarrow> log (Remove filename) w3
                        | None \<Rightarrow> log (Remove filename)
                                    (w3\<lparr>files := (files w3)(filename := None)\<rparr>))
              in if fail_scratch_write env filename = None
                    \<and> fail_scratch_unlink env filename = None
                 then (Found, w4) else (NextDir, w4))))"

text \<open>
  The names of one directory (\<open>for seq in range(100)\<close>); the result tells whether the
  directory is usable and which names are left for the next one.
\<close>

fun try_names :: "env \<Rightarrow> pystr \<Rightarrow> nat \<Rightarrow> pystr list \<Rightarrow> world \<Rightarrow> bool \<times> pystr list \<times> world" where
  "try_names env dir 0 names w = (False, names, w)"
| "try_names env dir (Suc n) [] w = (False, [], w)"
| "try_names env dir (Suc n) (name # names) w =
     (case scratch_attempt env (os_path_join dir name) w of
        (Found, w1) \<Rightarrow> (True, names, w1)
      | (NextName, w1) \<Rightarrow> try_names env dir n names w1
      | (NextDir, w1) \<Rightarrow> (False, names, w1))"

text \<open>The directories (\<open>for dir in dirlist\<close>); \<open>FileNotFoundError\<close> when none is usable.\<close>

fun get_default_tempdir ::
  "env \<Rightarrow> pystr list \<Rightarrow> pystr list \<Rightarrow> world \<Rightarrow> (io_error + pystr) \<times> world" where
  "get_default_tempdir env [] names w = (Inl (OSError ''FileNotFoundError''), w)"
| "get_default_tempdir env (dir # dirs) names w =
     (case try_names env dir 100 names w of
        (True, names', w1) \<Rightarrow> (Inr dir, w1)
      | (False, names', w1) \<Rightarrow> get_default_tempdir env dirs names' w1)"

text \<open>
  \<open>tempfile.gettempdir()\<close>: the directory found earlier in the process, or else the
  search, whose result is kept in \<open>tempfile.tempdir\<close>.
\<close>

definition tempfile_gettempdir :: "env \<Rightarrow> world \<Rightarrow> (io_error + pystr) \<times> world" where
  "tempfile_gettempdir env w =
     (case tempdir_cache w of
        Some d \<Rightarrow> (Inr d, w)
      | None \<Rightarrow>
          (case get_default_tempdir env (candidate_dirs env) (scratch_names env) w of
             (Inl e, w1) \<Rightarrow> (Inl e, w1)
           | (Inr d, w1) \<Rightarrow> (Inr d, w1\<lparr>tempdir_cache := Some d\<rparr>)))"

section \<open>Network and file operations\<close>

definition urllib_urlopen :: "env \<Rightarrow> pystr \<Rightarrow> world \<Rightarrow> (exn + response) \<times> world" where
  "urllib_urlopen env url w =
     (case net_urlopen env url of
        Inl e \<Rightarrow> (Inl (raised e), log (UrlOpen url) w)
      | Inr resp \<Rightarrow> (Inr resp, log (UrlOpen url) w))"

text \<open>
  \<open>resp.read(n)\<close>: up to \<open>n\<close> bytes; when no byte is left, the exception the
  connection ends with, or the empty bytes object.
\<close>

definition resp_read :: "nat \<Rightarrow> response \<Rightarrow> world \<Rightarrow> (io_error + pybytes) \<times> response \<times> world" where
  "resp_read n r w =
     (if body r = []
      then (case failure r of
              Some e \<Rightarrow> (Inl e, r, log (Read n) w)
            | None \<Rightarrow> (Inr [], r, log (Read n) w))
      else (Inr (take n (body r)), r\<lparr>body := drop n (body r)\<rparr>, log (Read n) w))"

text \<open>\<open>open(p, "wb")\<close>: creates the file or truncates it; a directory cannot be opened.\<close>

definition open_wb :: "env \<Rightarrow> pystr \<Rightarrow> world \<Rightarrow> io_error option \<times> world" where
  "open_wb env p w =
     (case fail_open env p of
        Some m \<Rightarrow> (Some (OSError m), log (OpenWB p) w)
      | None \<Rightarrow>
          (case files w p of
             Some Dir \<Rightarrow> (Some (OSError ''IsADirectoryError''), log (OpenWB p) w)
           | _ \<Rightarrow> (None, log (OpenWB p) (w\<lparr>files := (files w)(p \<mapsto> File [])\<rparr>))))"

text \<open>\<open>out.write(chunk)\<close>; the injected failure depends on the bytes written so far.\<close>

definition file_write :: "env \<Rightarrow> pystr \<Rightarrow> pybytes \<Rightarrow> world \<Rightarrow> io_error option \<times> world" where
  "file_write env p chunk w =
     (case files w p of
        Some (File c) \<Rightarrow>
          (case fail_write env (length c) of
             Some m \<Rightarrow> (Some (OSError m), log (Write p (length chunk)) w)
           | None \<Rightarrow> (None, log (Write p (length chunk))
                              (w\<lparr>files := (files w)(p \<mapsto> File (c @ chunk))\<rparr>)))
      | _ \<Rightarrow> (Some (OSError ''EBADF''), log (Write p (length chunk)) w))"

definition file_close :: "env \<Rightarrow> pystr \<Rightarrow> world \<Rightarrow> io_error option \<times> world" where
  "file_close env p w = (map_option OSError (fail_close env), log (Close p) w)"

text \<open>
  \<open>os.replace(src, dst)\<close>: one rename; \<open>dst\<close> takes the node of \<open>src\<close>. A file
  does not replace a directory, nor a directory a file.
\<close>

definition os_replace :: "env \<Rightarrow> pystr \<Rightarrow> pystr \<Rightarrow> world \<Rightarrow> io_error option \<times> world" where
  "os_replace env src dst w =
     (case fail_replace env of
        Some m \<Rightarrow> (Some (OSError m), log (Replace src dst) w)
      | None \<Rightarrow>
          (case files w src of
             None \<Rightarrow> (Some (OSError ''FileNotFoundError''), log (Replace src dst) w)
           | Some (File c) \<Rightarrow>
               if files w dst = Some Dir
               then (Some (OSError ''IsADirectoryError''), log (Replace src dst) w)
               else (None, log (Replace src dst)
                             (w\<lparr>files := (files w)(src := None, dst \<mapsto> File c)\<rparr>))
           | Some Dir \<Rightarrow>
               (case files w dst of
                  Some (File c) \<Rightarrow>
                    (Some (OSError ''NotADirectoryError''), log (Replace src dst) w)
                | _ \<Rightarrow> (None, log (Replace src dst)
                                (w\<lparr>files := (files w)(src := None, dst \<mapsto> Dir)\<rparr>)))))"

text \<open>\<open>os.remove(p)\<close>: unlinks a file; fails on a directory and on a missing path.\<close>

definition os_remove :: "env \<Rightarrow> pystr \<Rightarrow> world \<Rightarrow> io_error option \<times> world" where
  "os_remove env p w =
     (case fail_remove env of
        Some m \<Rightarrow> (Some (OSError m), log (Remove p) w)
      | None \<Rightarrow>
          (case files w p of
             Some (File c) \<Rightarrow> (None, log (Remove p) (w\<lparr>files := (files w)(p := None)\<rparr>))
           | Some Dir \<Rightarrow> (Some (OSError ''IsADirectoryError''), log (Remove p) w)
           | None \<Rightarrow> (Some (OSError ''FileNotFoundError''), log (Remove p) w)))"

section \<open>get_pdf_local_path\<close>

text \<open>
  Lines 43 to 46, entered with the first chunk already read:
  \<^verbatim>\<open>while chunk: out.write(chunk); chunk = resp.read(8192)\<close>
\<close>

function copy_loop ::
  "env \<Rightarrow> pystr \<Rightarrow> pybytes \<Rightarrow> response \<Rightarrow> world \<Rightarrow> io_error option \<times> world" where
  "copy_loop env p chunk r w =
     (if chunk = [] then (None, w)
      else (case file_write env p chunk w of
              (Some e, w1) \<Rightarrow> (Some e, w1)
            | (None, w1) \<Rightarrow>
                (case resp_read 8192 r w1 of
                   (Inl e, r', w2) \<Rightarrow> (Some e, w2)
                 | (Inr chunk', r', w2) \<Rightarrow> copy_loop env p chunk' r' w2)))"
  by pat_completeness auto
termination
  by (relation "measure (\<lambda>(env, p, chunk, r, w). length (body r) + (if chunk = [] then 0 else 1))")
     (auto simp: resp_read_def split: if_splits option.splits)

declare copy_loop.simps [simp del]

text \<open>The body of the inner \<open>with\<close> (lines 43 to 46).\<close>

definition with_body :: "env \<Rightarrow> pystr \<Rightarrow> response \<Rightarrow> world \<Rightarrow> io_error option \<times> world" where
  "with_body env tmppath r w =
     (case resp_read 8192 r w of
        (Inl e, r', w1) \<Rightarrow> (Some e, w1)
      | (Inr chunk, r', w1) \<Rightarrow> copy_loop env tmppath chunk r' w1)"

text \<open>
  The \<open>try\<close> block (lines 38 to 47). \<open>urlopen\<close> runs before \<open>open\<close>. Leaving the
  \<open>with\<close> closes the file, also when its body raised, and an exception raised by that
  close replaces the one in flight. \<open>os.replace\<close> runs only after a clean exit.
\<close>

definition try_block :: "env \<Rightarrow> pystr \<Rightarrow> pystr \<Rightarrow> pystr \<Rightarrow> world \<Rightarrow> exn option \<times> world" where
  "try_block env url tmppath fullpath w =
     (case urllib_urlopen env url w of
        (Inl e, w1) \<Rightarrow> (Some e, w1)
      | (Inr resp, w1) \<Rightarrow>
          (case open_wb env tmppath w1 of
             (Some e, w2) \<Rightarrow> (Some (Failed e), w2)
           | (None, w2) \<Rightarrow>
               (case with_body env tmppath resp w2 of
                  (r, w3) \<Rightarrow>
                    (case file_close env tmppath w3 of
                       (Some e', w4) \<Rightarrow> (Some (Failed e'), w4)
                     | (None, w4) \<Rightarrow>
                         (case r of
                            Some e \<Rightarrow> (Some (Failed e), w4)
                          | None \<Rightarrow>
                              (case os_replace env tmppath fullpath w4 of
                                 (r5, w5) \<Rightarrow> (map_option Failed r5, w5)))))))"

text \<open>
  The \<open>finally\<close> block (lines 50 to 54); \<open>and\<close> probes the final path only when the
  staging path exists, and an \<open>OSError\<close> of \<open>os.remove\<close> is dropped.
\<close>

definition finally_block :: "env \<Rightarrow> pystr \<Rightarrow> pystr \<Rightarrow> world \<Rightarrow> world" where
  "finally_block env tmppath fullpath w =
     (case os_path_exists tmppath w of
        (False, w1) \<Rightarrow> w1
      | (True, w1) \<Rightarrow>
          (case os_path_exists fullpath w1 of
             (True, w2) \<Rightarrow> w2
           | (False, w2) \<Rightarrow> snd (os_remove env tmppath w2)))"

text \<open>Lines 25 and 26: the file name, when the URL can be encoded.\<close>

definition cache_filename :: "pystr \<Rightarrow> exn + pystr" where
  "cache_filename url =
     (case encode_utf8 url of
        Inl e \<Rightarrow> Inl e
      | Inr bs \<Rightarrow> Inr (hexdigest bs @ py ''.pdf''))"

definition get_pdf_local_path :: "env \<Rightarrow> world \<Rightarrow> pystr \<Rightarrow> (exn + pystr) \<times> world" where
  "get_pdf_local_path env w url =
     (case urlparse env url of
        Inl e \<Rightarrow> (Inl e, w)
      | Inr scheme \<Rightarrow>
          if scheme \<noteq> py ''http'' \<and> scheme \<noteq> py ''https''
          then (Inl (UnsupportedScheme scheme), w)
          else
            (case cache_filename url of
               Inl e \<Rightarrow> (Inl e, w)
             | Inr filename \<Rightarrow>
                 (case tempfile_gettempdir env w of
                    (Inl e, w0) \<Rightarrow> (Inl (Failed e), w0)
                  | (Inr tmpdir, w0) \<Rightarrow>
                      (let fullpath = os_path_join tmpdir filename
                       in case os_path_exists fullpath w0 of
                            (True, w1) \<Rightarrow> (Inr fullpath, w1)
                          | (False, w1) \<Rightarrow>
                              (let tmppath = fullpath @ py ''.part''
                               in case try_block env url tmppath fullpath w1 of
                                    (r, w2) \<Rightarrow>
                                      (let w3 = finally_block env tmppath fullpath w2
                                       in case r of
                                            Some e \<Rightarrow> (Inl e, w3)
                                          | None \<Rightarrow> (Inr fullpath, w3)))))))"

section \<open>Notions used by the properties\<close>

text \<open>A URL that passes lines 20 to 22: it parses and its scheme is http or https.\<close>

definition valid_url :: "env \<Rightarrow> pystr \<Rightarrow> bool" where
  "valid_url env url =
     (case urlparse env url of Inl e \<Rightarrow> False | Inr s \<Rightarrow> s = py ''http'' \<or> s = py ''https'')"

text \<open>
  Line 30 and line 36: the final path and the staging path of a file name in the
  temporary directory \<open>d\<close>.
\<close>

definition cache_path :: "pystr \<Rightarrow> pystr \<Rightarrow> pystr" where
  "cache_path d filename = os_path_join d filename"

definition staging_path :: "pystr \<Rightarrow> pystr \<Rightarrow> pystr" where
  "staging_path d filename = cache_path d filename @ py ''.part''"

text \<open>The events of the copy loop: reads of 8192 bytes, writes of one chunk to \<open>p\<close>.\<close>

fun chunk_event :: "pystr \<Rightarrow> event \<Rightarrow> bool" where
  "chunk_event p (Read n) = (n = 8192)"
| "chunk_event p (Write q n) = (q = p \<and> 0 < n \<and> n \<le> 8192)"
| "chunk_event p _ = False"

text \<open>The events of the search for a temporary directory, and those of the network.\<close>

fun scratch_event :: "event \<Rightarrow> bool" where
  "scratch_event (OpenExcl p) = True"
| "scratch_event (Write p n) = (n = 4)"
| "scratch_event (Close p) = True"
| "scratch_event (Remove p) = True"
| "scratch_event _ = False"

fun network_event :: "event \<Rightarrow> bool" where
  "network_event (UrlOpen u) = True"
| "network_event (Read n) = True"
| "network_event _ = False"

text \<open>
  What the search for a temporary directory may do to a world: it adds scratch events,
  leaves every existing file alone, and leaves all files alone when no unlink fails.
\<close>

definition scratch_only :: "env \<Rightarrow> world \<Rightarrow> world \<Rightarrow> bool" where
  "scratch_only env w w1 =
     (tempdir_cache w1 = tempdir_cache w
      \<and> (\<exists>evs. trace w1 = trace w @ evs \<and> list_all scratch_event evs)
      \<and> (\<forall>q. files w q \<noteq> None \<longrightarrow> files w1 q = files w q)
      \<and> ((\<forall>p. fail_scratch_unlink env p = None) \<longrightarrow> files w1 = files w))"

definition lower_hex :: "int \<Rightarrow> bool" where
  "lower_hex c = ((48 \<le> c \<and> c \<le> 57) \<or> (97 \<le> c \<and> c \<le> 102))"

text \<open>A well-formed \<open>str\<close>: every code point is in \<open>range(0x110000)\<close>.\<close>

definition wf_str :: "pystr \<Rightarrow> bool" where
  "wf_str s = list_all (\<lambda>c. 0 \<le> c \<and> c < 1114112) s"

text \<open>Reading one code point back from UTF-8 bytes; used to show the encoding injective.\<close>

definition decode1 :: "pybytes \<Rightarrow> int" where
  "decode1 bs =
     (let b0 = bs ! 0
      in if b0 < 128 then b0
         else if b0 < 224 then (b0 - 192) * 64 + (bs ! 1 - 128)
         else if b0 < 240 then ((b0 - 224) * 64 + (bs ! 1 - 128)) * 64 + (bs ! 2 - 128)
         else (((b0 - 240) * 64 + (bs ! 1 - 128)) * 64 + (bs ! 2 - 128)) * 64 + (bs ! 3 - 128))"

subsection \<open>A concrete setting\<close>

text \<open>
  The URL of the end-to-end example, its file name as \<open>hashlib\<close> computes it, one
  candidate directory \<open>/tmp\<close>, a server that answers with eight bytes, and no failure
  of the operating system.
\<close>

definition example_url :: pystr where
  "example_url = py ''https://example.test/doc.pdf''"

definition example_filename :: pystr where
  "example_filename = py ''c22a6888b865a6128c9ccfecd429e5a9db683f778fa589706649ab86689b9022.pdf''"

definition example_path :: pystr where
  "example_path = py ''/tmp/'' @ example_filename"

definition example_env :: env where
  "example_env =
     \<lparr>candidate_dirs = [py ''/tmp''],
      scratch_names = [py ''k3x_9qzt''],
      fail_scratch_open = (\<lambda>p. None),
      fail_scratch_write = (\<lambda>p. None),
      fail_scratch_unlink = (\<lambda>p. None),
      check_bracketed_netloc = (\<lambda>n. True),
      checknetloc_nfkc = (\<lambda>n. True),
      net_urlopen = (\<lambda>u. Inr \<lparr>body = py ''%PDF-1.4'', failure = None, missing = []\<rparr>),
      fail_open = (\<lambda>p. None),
      fail_write = (\<lambda>n. None),
      fail_close = None,
      fail_replace = None,
      fail_remove = None\<rparr>"

text \<open>
  No file yet; in \<open>warm_world\<close> an earlier call of the process has found \<open>/tmp\<close>, in
  \<open>cold_world\<close> the call is the first one of the process.
\<close>

definition warm_world :: world where
  "warm_world = \<lparr>files = Map.empty, trace = [], tempdir_cache = Some (py ''/tmp'')\<rparr>"

definition cold_world :: world where
  "cold_world = \<lparr>files = Map.empty, trace = [], tempdir_cache = None\<rparr>"

text \<open>A first call of a process whose cache holds the document already.\<close>

definition cached_cold_world :: world where
  "cached_cold_world = cold_world\<lparr>files := [example_path \<mapsto> File (py ''%PDF-1.4'')]\<rparr>"

text \<open>
  A connection that is reset after four of the eight bytes: the read after them raises
  \<open>ConnectionResetError\<close>.
\<close>

definition reset_env :: env where
  "reset_env =
     example_env\<lparr>net_urlopen :=
       (\<lambda>u. Inr \<lparr>body = py ''%PDF'', failure = Some (OSError ''ConnectionResetError''),
                  missing = py ''-1.4''\<rparr>)\<rparr>"

text \<open>The same connection, with a staging file whose close fails as well.\<close>

definition close_failing_env :: env where
  "close_failing_env = reset_env\<lparr>fail_close := Some ''ENOSPC''\<rparr>"

text \<open>
  A server that closes the connection after four of the eight bytes: the read after
  them returns the empty bytes object.
\<close>

definition truncating_env :: env where
  "truncating_env =
     example_env\<lparr>net_urlopen :=
       (\<lambda>u. Inr \<lparr>body = py ''%PDF'', failure = None, missing = py ''-1.4''\<rparr>)\<rparr>"

text \<open>
  \<open>urlopen\<close> as it treats a URL that is not ASCII: \<open>UnicodeEncodeError\<close> from the
  encoding of the request line.
\<close>

definition ascii_only_env :: env where
  "ascii_only_env =
     example_env\<lparr>net_urlopen :=
       (\<lambda>u. if is_ascii u
            then Inr \<lparr>body = py ''%PDF-1.4'', failure = None, missing = []\<rparr>
            else Inl (UrlValueError ''UnicodeEncodeError''))\<rparr>"

section \<open>Auxiliary facts\<close>

subsection \<open>Errors of parsing and encoding\<close>

lemma urlparse_error: "urlparse env url = Inl e \<Longrightarrow> \<exists>m. e = ParseError m"
  by (auto simp: urlparse_def check_netloc_def split: prod.splits if_splits option.splits)

lemma utf8_char_error: "utf8_char c = Inl e \<Longrightarrow> e = UnicodeEncodeError c \<and> 55296 \<le> c \<and> c \<le> 57343"
  by (auto simp: utf8_char_def split: if_splits)

lemma encode_utf8_error:
  "encode_utf8 url = Inl e \<Longrightarrow> \<exists>c \<in> set url. e = UnicodeEncodeError c \<and> 55296 \<le> c \<and> c \<le> 57343"
  by (induction url) (auto split: sum.splits dest: utf8_char_error)

lemma encode_utf8_ok:
  "(\<exists>bs. encode_utf8 url = Inr bs) = (\<forall>c \<in> set url. \<not> (55296 \<le> c \<and> c \<le> 57343))"
  by (induction url) (auto simp: utf8_char_def split: sum.splits if_splits)

subsection \<open>The search for a temporary directory\<close>

lemma scratch_only_refl: "scratch_only env w w"
  by (simp add: scratch_only_def)

lemma scratch_only_trans:
  assumes "scratch_only env w w1" and "scratch_only env w1 w2"
  shows "scratch_only env w w2"
proof -
  from assms(1) obtain e1 where e1: "trace w1 = trace w @ e1" "list_all scratch_event e1"
    unfolding scratch_only_def by blast
  from assms(2) obtain e2 where e2: "trace w2 = trace w1 @ e2" "list_all scratch_event e2"
    unfolding scratch_only_def by blast
  have t: "trace w2 = trace w @ (e1 @ e2)" and a: "list_all scratch_event (e1 @ e2)"
    using e1 e2 by simp_all
  have c: "tempdir_cache w2 = tempdir_cache w"
    using assms unfolding scratch_only_def by simp
  have f: "\<forall>q. files w q \<noteq> None \<longrightarrow> files w2 q = files w q"
    using assms unfolding scratch_only_def by metis
  have u: "(\<forall>p. fail_scratch_unlink env p = None) \<longrightarrow> files w2 = files w"
    using assms unfolding scratch_only_def by simp
  from t a c f u show ?thesis unfolding scratch_only_def by blast
qed

lemma scratch_only_log: "scratch_event ev \<Longrightarrow> scratch_only env w (log ev w)"
  by (simp add: scratch_only_def log_def)

lemma scratch_attempt_only:
  assumes "scratch_attempt env f w = (a, w1)"
  shows "scratch_only env w w1"
proof (cases "files w f \<noteq> None \<or> fail_scratch_open env f \<noteq> None")
  case True
  then have "w1 = log (OpenExcl f) w"
    using assms by (auto simp: scratch_attempt_def split: if_splits option.splits)
  then show ?thesis by (simp add: scratch_only_log)
next
  case False
  then have absent: "files w f = None" and op: "fail_scratch_open env f = None" by simp_all
  have c: "tempdir_cache w1 = tempdir_cache w"
    using assms absent op
    by (auto simp: scratch_attempt_def Let_def log_def split: if_splits option.splits)
  have t: "trace w1 = trace w @ [OpenExcl f, Write f 4, Close f, Remove f]"
    using assms absent op
    by (auto simp: scratch_attempt_def Let_def log_def split: if_splits option.splits)
  have a: "list_all scratch_event [OpenExcl f, Write f 4, Close f, Remove f]" by simp
  have o: "\<forall>q. q \<noteq> f \<longrightarrow> files w1 q = files w q"
    using assms absent op
    by (auto simp: scratch_attempt_def Let_def log_def split: if_splits option.splits)
  have u: "files w1 f = None" if "fail_scratch_unlink env f = None"
    using assms absent op that
    by (auto simp: scratch_attempt_def Let_def log_def split: if_splits option.splits)
  have f1: "\<forall>q. files w q \<noteq> None \<longrightarrow> files w1 q = files w q"
    using o absent by metis
  have f2: "(\<forall>p. fail_scratch_unlink env p = None) \<longrightarrow> files w1 = files w"
  proof
    assume h: "\<forall>p. fail_scratch_unlink env p = None"
    show "files w1 = files w"
    proof (rule ext)
      fix q show "files w1 q = files w q"
        using o u h absent by (cases "q = f") simp_all
    qed
  qed
  from c t a f1 f2 show ?thesis unfolding scratch_only_def by blast
qed

lemma try_names_only:
  "try_names env dir k names w = (b, names', w1) \<Longrightarrow> scratch_only env w w1"
proof (induction env dir k names w arbitrary: b names' w1 rule: try_names.induct)
  case (1 env dir names w)
  then show ?case by (simp add: scratch_only_refl)
next
  case (2 env dir n w)
  then show ?case by (simp add: scratch_only_refl)
next
  case (3 env dir n name names w)
  obtain a w0 where sa: "scratch_attempt env (os_path_join dir name) w = (a, w0)"
    by (meson surj_pair)
  have s0: "scratch_only env w w0" using sa by (rule scratch_attempt_only)
  show ?case
  proof (cases a)
    case Found
    with "3.prems" sa have "w1 = w0" by simp
    with s0 show ?thesis by simp
  next
    case NextName
    with "3.prems" sa have "try_names env dir n names w0 = (b, names', w1)" by simp
    from "3.IH"[OF sa[symmetric] NextName this] s0 show ?thesis
      by (rule scratch_only_trans[rotated])
  next
    case NextDir
    with "3.prems" sa have "w1 = w0" by simp
    with s0 show ?thesis by simp
  qed
qed

lemma get_default_tempdir_only:
  "get_default_tempdir env dirs names w = (r, w1) \<Longrightarrow> scratch_only env w w1"
proof (induction env dirs names w arbitrary: r w1 rule: get_default_tempdir.induct)
  case (1 env names w)
  then show ?case by (simp add: scratch_only_refl)
next
  case (2 env dir dirs names w)
  obtain b names' w0 where tn: "try_names env dir 100 names w = (b, names', w0)"
    by (metis surj_pair)
  have s0: "scratch_only env w w0" using tn by (rule try_names_only)
  show ?case
  proof (cases b)
    case True
    with "2.prems" tn have "w1 = w0" by simp
    with s0 show ?thesis by simp
  next
    case False
    then have bf: "b = False" by simp
    with "2.prems" tn have "get_default_tempdir env dirs names' w0 = (r, w1)" by simp
    from "2.IH"[OF tn[symmetric] bf refl this] s0 show ?thesis
      by (rule scratch_only_trans[rotated])
  qed
qed

lemma gettempdir_cached: "tempdir_cache w = Some d \<Longrightarrow> tempfile_gettempdir env w = (Inr d, w)"
  by (simp add: tempfile_gettempdir_def)

lemma gettempdir_frame:
  assumes "tempfile_gettempdir env w = (r, w0)"
  shows "(tempdir_cache w \<noteq> None \<longrightarrow> w0 = w)
       \<and> (\<exists>evs. trace w0 = trace w @ evs \<and> list_all scratch_event evs)
       \<and> (\<forall>q. files w q \<noteq> None \<longrightarrow> files w0 q = files w q)
       \<and> ((\<forall>p. fail_scratch_unlink env p = None) \<longrightarrow> files w0 = files w)"
proof (cases "tempdir_cache w")
  case (Some d)
  with assms have "w0 = w" by (simp add: tempfile_gettempdir_def)
  then show ?thesis by simp
next
  case None
  obtain r1 w1 where g: "get_default_tempdir env (candidate_dirs env) (scratch_names env) w = (r1, w1)"
    by (meson surj_pair)
  from get_default_tempdir_only[OF g] have s: "scratch_only env w w1" .
  have "files w0 = files w1 \<and> trace w0 = trace w1"
    using assms None g by (cases r1) (auto simp: tempfile_gettempdir_def)
  with s None show ?thesis unfolding scratch_only_def by simp
qed

lemma scratch_not_network: "scratch_event ev \<Longrightarrow> \<not> network_event ev"
  by (cases ev) simp_all

lemma scratch_events_not_network:
  "list_all scratch_event evs \<Longrightarrow> list_all (\<lambda>ev. \<not> network_event ev) evs"
  by (induction evs) (simp_all add: scratch_not_network)

lemma try_names_pos:
  "0 < k \<Longrightarrow> try_names env dir k (name # names) w =
     (case scratch_attempt env (os_path_join dir name) w of
        (Found, w1) \<Rightarrow> (True, names, w1)
      | (NextName, w1) \<Rightarrow> try_names env dir (k - 1) names w1
      | (NextDir, w1) \<Rightarrow> (False, names, w1))"
  by (cases k) (simp_all split: prod.splits attempt.splits)

subsection \<open>The ways through the function\<close>

lemma get_invalid:
  "\<not> valid_url env url \<Longrightarrow> \<exists>e. get_pdf_local_path env w url = (Inl e, w) \<and> is_ValueError e"
  by (auto simp: valid_url_def get_pdf_local_path_def split: sum.splits dest: urlparse_error)

lemma get_unencodable:
  "valid_url env url \<Longrightarrow> cache_filename url = Inl e \<Longrightarrow> get_pdf_local_path env w url = (Inl e, w)"
  by (auto simp: valid_url_def get_pdf_local_path_def split: sum.splits)

lemma get_notempdir:
  "valid_url env url \<Longrightarrow> cache_filename url = Inr fn
   \<Longrightarrow> tempfile_gettempdir env w = (Inl e, w0)
   \<Longrightarrow> get_pdf_local_path env w url = (Inl (Failed e), w0)"
  by (auto simp: valid_url_def get_pdf_local_path_def split: sum.splits)

lemma get_hit:
  "valid_url env url \<Longrightarrow> cache_filename url = Inr fn
   \<Longrightarrow> tempfile_gettempdir env w = (Inr d, w0)
   \<Longrightarrow> files w0 (os_path_join d fn) \<noteq> None
   \<Longrightarrow> get_pdf_local_path env w url =
       (Inr (os_path_join d fn), log (Exists (os_path_join d fn)) w0)"
  by (auto simp: valid_url_def get_pdf_local_path_def os_path_exists_def Let_def split: sum.splits)

lemma get_miss:
  "valid_url env url \<Longrightarrow> cache_filename url = Inr fn
   \<Longrightarrow> tempfile_gettempdir env w = (Inr d, w0)
   \<Longrightarrow> files w0 (os_path_join d fn) = None
   \<Longrightarrow> try_block env url (os_path_join d fn @ py ''.part'') (os_path_join d fn)
         (log (Exists (os_path_join d fn)) w0) = (r, w2)
   \<Longrightarrow> get_pdf_local_path env w url =
       (case r of Some e \<Rightarrow> Inl e | None \<Rightarrow> Inr (os_path_join d fn),
        finally_block env (os_path_join d fn @ py ''.part'') (os_path_join d fn) w2)"
  by (auto simp: valid_url_def get_pdf_local_path_def os_path_exists_def Let_def split: sum.splits option.splits)

subsection \<open>The copy loop\<close>

lemma copy_loop_files:
  assumes "files w p = Some (File c)"
      and "chunk = [] \<longrightarrow> body r = [] \<and> failure r = None"
      and "copy_loop env p chunk r w = (res, w')"
  shows "(\<forall>q. q \<noteq> p \<longrightarrow> files w' q = files w q) \<and> (\<exists>c'. files w' p = Some (File c'))
       \<and> (res = None \<longrightarrow> failure r = None \<and> files w' p = Some (File (c @ chunk @ body r)))"
  using assms
proof (induction env p chunk r w arbitrary: c res w' rule: copy_loop.induct)
  case (1 env p chunk r w)
  show ?case
  proof (cases "chunk = []")
    case True
    with "1.prems" show ?thesis by (simp add: copy_loop.simps)
  next
    case False
    show ?thesis
    proof (cases "fail_write env (length c)")
      case (Some e)
      with False "1.prems" show ?thesis
        by (simp add: copy_loop.simps file_write_def log_def) auto
    next
      case None
      define w1 where "w1 = log (Write p (length chunk)) (w\<lparr>files := (files w)(p \<mapsto> File (c @ chunk))\<rparr>)"
      have fw: "file_write env p chunk w = (None, w1)"
        using None "1.prems"(1) by (simp add: file_write_def w1_def)
      have f1: "files w1 p = Some (File (c @ chunk))" and f1o: "\<And>q. q \<noteq> p \<Longrightarrow> files w1 q = files w q"
        by (simp_all add: w1_def log_def)
      show ?thesis
      proof (cases "body r = []")
        case True
        with False fw "1.prems" f1 f1o show ?thesis
          by (auto simp: copy_loop.simps resp_read_def log_def split: option.splits)
      next
        case nonempty: False
        define r' where "r' = r\<lparr>body := drop 8192 (body r)\<rparr>"
        define chunk' where "chunk' = take 8192 (body r)"
        define w2 where "w2 = log (Read 8192) w1"
        have rd: "resp_read 8192 r w1 = (Inr chunk', r', w2)"
          using nonempty by (simp add: resp_read_def r'_def chunk'_def w2_def)
        have ne: "chunk' \<noteq> []" using nonempty by (simp add: chunk'_def)
        have step: "copy_loop env p chunk r w = copy_loop env p chunk' r' w2"
          using False fw rd by (subst copy_loop.simps) simp
        have f2: "files w2 p = Some (File (c @ chunk))" using f1 by (simp add: w2_def log_def)
        have IH: "(\<forall>q. q \<noteq> p \<longrightarrow> files w' q = files w2 q) \<and> (\<exists>c'. files w' p = Some (File c'))
           \<and> (res = None \<longrightarrow> failure r' = None \<and> files w' p = Some (File ((c @ chunk) @ chunk' @ body r')))"
          using "1.IH"[OF False fw[symmetric] refl rd[symmetric] refl refl f2] ne "1.prems"(3) step by simp
        have "chunk' @ body r' = body r" by (simp add: chunk'_def r'_def)
        moreover have "failure r' = failure r" by (simp add: r'_def)
        moreover have "\<And>q. q \<noteq> p \<Longrightarrow> files w2 q = files w q" using f1o by (simp add: w2_def log_def)
        ultimately show ?thesis using IH by (simp add: append_assoc[symmetric] del: append_assoc)
      qed
    qed
  qed
qed


lemma copy_loop_no_write_fault:
  assumes "files w p = Some (File c)"
      and "\<forall>n. fail_write env n = None"
      and "chunk = [] \<longrightarrow> body r = [] \<and> failure r = None"
      and "length chunk \<le> 8192"
  shows "\<exists>w'. copy_loop env p chunk r w = (failure r, w')
            \<and> files w' = (files w)(p \<mapsto> File (c @ chunk @ body r))
            \<and> (\<exists>evs. trace w' = trace w @ evs \<and> list_all (chunk_event p) evs)"
  using assms
proof (induction env p chunk r w arbitrary: c rule: copy_loop.induct)
  case (1 env p chunk r w)
  show ?case
  proof (cases "chunk = []")
    case True
    with "1.prems" show ?thesis by (simp add: copy_loop.simps map_upd_triv)
  next
    case False
    define w1 where "w1 = log (Write p (length chunk)) (w\<lparr>files := (files w)(p \<mapsto> File (c @ chunk))\<rparr>)"
    have fw: "file_write env p chunk w = (None, w1)"
      using "1.prems"(1,2) by (simp add: file_write_def w1_def)
    have f1: "files w1 = (files w)(p \<mapsto> File (c @ chunk))"
      and t1: "trace w1 = trace w @ [Write p (length chunk)]"
      by (simp_all add: w1_def log_def)
    show ?thesis
    proof (cases "body r = []")
      case True
      define w2 where "w2 = log (Read 8192) w1"
      have "copy_loop env p chunk r w = (failure r, w2)"
        using False fw True unfolding w2_def
        by (subst copy_loop.simps) (simp add: resp_read_def copy_loop.simps split: option.splits)
      moreover have "list_all (chunk_event p) [Write p (length chunk), Read 8192]"
        using False "1.prems"(4) by simp
      moreover have "files w2 = (files w)(p \<mapsto> File (c @ chunk @ body r))"
        using f1 True by (simp add: w2_def log_def)
      moreover have "trace w2 = trace w @ [Write p (length chunk), Read 8192]"
        using t1 by (simp add: w2_def log_def)
      ultimately show ?thesis by blast
    next
      case nonempty: False
      define r' where "r' = r\<lparr>body := drop 8192 (body r)\<rparr>"
      define chunk' where "chunk' = take 8192 (body r)"
      define w2 where "w2 = log (Read 8192) w1"
      have rd: "resp_read 8192 r w1 = (Inr chunk', r', w2)"
        using nonempty by (simp add: resp_read_def r'_def chunk'_def w2_def)
      have ne: "chunk' \<noteq> []" using nonempty by (simp add: chunk'_def)
      have len: "length chunk' \<le> 8192" by (simp add: chunk'_def)
      have step: "copy_loop env p chunk r w = copy_loop env p chunk' r' w2"
        using False fw rd by (subst copy_loop.simps) simp
      have f2: "files w2 p = Some (File (c @ chunk))" using f1 by (simp add: w2_def log_def)
      have pre: "chunk' = [] \<longrightarrow> body r' = [] \<and> failure r' = None" using ne by simp
      from "1.IH"[OF False fw[symmetric] refl rd[symmetric] refl refl f2 "1.prems"(2) pre len]
      obtain w' evs where
        r1: "copy_loop env p chunk' r' w2 = (failure r', w')"
        and r2: "files w' = (files w2)(p \<mapsto> File ((c @ chunk) @ chunk' @ body r'))"
        and r3: "trace w' = trace w2 @ evs" and r4: "list_all (chunk_event p) evs"
        by blast
      have b: "chunk' @ body r' = body r" by (simp add: chunk'_def r'_def)
      have fl: "failure r' = failure r" by (simp add: r'_def)
      have "files w' = (files w)(p \<mapsto> File (c @ chunk @ body r))"
        using r2 f1 b by (simp add: w2_def log_def)
      moreover have "trace w' = trace w @ ([Write p (length chunk), Read 8192] @ evs)"
        using r3 t1 by (simp add: w2_def log_def)
      moreover have "list_all (chunk_event p) ([Write p (length chunk), Read 8192] @ evs)"
        using r4 False "1.prems"(4) by simp
      ultimately show ?thesis using step r1 fl by metis
    qed
  qed
qed

lemma with_body_files:
  assumes "files w p = Some (File c)" and "with_body env p r w = (res, w')"
  shows "(\<forall>q. q \<noteq> p \<longrightarrow> files w' q = files w q) \<and> (\<exists>c'. files w' p = Some (File c'))
       \<and> (res = None \<longrightarrow> failure r = None \<and> files w' p = Some (File (c @ body r)))"
proof (cases "body r = []")
  case True
  with assms show ?thesis
    by (auto simp: with_body_def resp_read_def log_def copy_loop.simps split: option.splits)
next
  case False
  define r' where "r' = r\<lparr>body := drop 8192 (body r)\<rparr>"
  have eq: "copy_loop env p (take 8192 (body r)) r' (log (Read 8192) w) = (res, w')"
    using assms(2) False by (simp add: with_body_def resp_read_def r'_def)
  have "files (log (Read 8192) w) p = Some (File c)" using assms(1) by (simp add: log_def)
  from copy_loop_files[OF this _ eq] False
  have "(\<forall>q. q \<noteq> p \<longrightarrow> files w' q = files (log (Read 8192) w) q) \<and> (\<exists>c'. files w' p = Some (File c'))
       \<and> (res = None \<longrightarrow> failure r' = None \<and> files w' p = Some (File (c @ take 8192 (body r) @ body r')))"
    by simp
  then show ?thesis by (simp add: r'_def log_def)
qed

lemma with_body_no_write_fault:
  assumes "files w p = Some (File c)" and "\<forall>n. fail_write env n = None"
  shows "\<exists>w'. with_body env p r w = (failure r, w')
            \<and> files w' = (files w)(p \<mapsto> File (c @ body r))
            \<and> (\<exists>evs. trace w' = trace w @ evs \<and> list_all (chunk_event p) evs)"
proof (cases "body r = []")
  case True
  have "list_all (chunk_event p) [Read 8192]" by simp
  with True assms show ?thesis
    by (auto simp: with_body_def resp_read_def log_def copy_loop.simps map_upd_triv split: option.splits)
next
  case False
  define r' where "r' = r\<lparr>body := drop 8192 (body r)\<rparr>"
  define w1 where "w1 = log (Read 8192) w"
  have eq: "with_body env p r w = copy_loop env p (take 8192 (body r)) r' w1"
    using False by (simp add: with_body_def resp_read_def r'_def w1_def)
  have f: "files w1 p = Some (File c)" using assms(1) by (simp add: log_def w1_def)
  have pre: "take 8192 (body r) = [] \<longrightarrow> body r' = [] \<and> failure r' = None"
    using False by simp
  have len: "length (take 8192 (body r)) \<le> 8192" by simp
  from copy_loop_no_write_fault[OF f assms(2) pre len]
  obtain w' evs where
    r1: "copy_loop env p (take 8192 (body r)) r' w1 = (failure r', w')"
    and r2: "files w' = (files w1)(p \<mapsto> File (c @ take 8192 (body r) @ body r'))"
    and r3: "trace w' = trace w1 @ evs" and r4: "list_all (chunk_event p) evs"
    by blast
  have "files w' = (files w)(p \<mapsto> File (c @ body r))" using r2 by (simp add: r'_def w1_def log_def)
  moreover have "trace w' = trace w @ (Read 8192 # evs)" using r3 by (simp add: w1_def log_def)
  moreover have "list_all (chunk_event p) (Read 8192 # evs)" using r4 by simp
  moreover have "failure r' = failure r" by (simp add: r'_def)
  ultimately show ?thesis using eq r1 by metis
qed


subsection \<open>The try block and the finally block\<close>

lemma try_block_ok:
  assumes "try_block env url tp fp w = (None, w')" and "tp \<noteq> fp"
  shows "\<exists>resp. net_urlopen env url = Inr resp \<and> failure resp = None
              \<and> files w' = (files w)(tp := None, fp \<mapsto> File (body resp))"
proof -
  from assms(1) obtain resp where net: "net_urlopen env url = Inr resp"
    by (cases "net_urlopen env url") (auto simp: try_block_def urllib_urlopen_def)
  define w1 where "w1 = log (UrlOpen url) w"
  from assms(1) net obtain w2 where op: "open_wb env tp w1 = (None, w2)"
    by (cases "open_wb env tp w1") (auto simp: try_block_def urllib_urlopen_def w1_def split: option.splits)
  have f2: "files w2 = (files w)(tp \<mapsto> File [])"
    using op by (auto simp: open_wb_def w1_def log_def split: option.splits node.splits)
  obtain r w3 where wb: "with_body env tp resp w2 = (r, w3)" by (cases "with_body env tp resp w2")
  have rest: "r = None \<and> os_replace env tp fp (log (Close tp) w3) = (None, w')"
    using assms(1) net op wb
    by (cases "os_replace env tp fp (log (Close tp) w3)")
       (auto simp: try_block_def urllib_urlopen_def w1_def[symmetric] file_close_def
             split: option.splits)
  have f2tp: "files w2 tp = Some (File [])" using f2 by simp
  from with_body_files[OF f2tp wb] rest
  have f3: "\<forall>q. q \<noteq> tp \<longrightarrow> files w3 q = files w2 q" and f3tp: "files w3 tp = Some (File (body resp))"
    and fl: "failure resp = None"
    by auto
  have "files w' = (files w3)(tp := None, fp \<mapsto> File (body resp))"
    using rest f3tp
    by (auto simp: os_replace_def log_def split: option.splits node.splits if_splits)
  also have "\<dots> = (files w)(tp := None, fp \<mapsto> File (body resp))"
    using f3 f2 by (intro ext) simp
  finally show ?thesis using net fl by blast
qed

lemma os_replace_err: "os_replace env src dst w = (Some e, w') \<Longrightarrow> files w' = files w"
  by (auto simp: os_replace_def log_def split: option.splits node.splits if_splits)

lemma try_block_unfold:
  assumes "net_urlopen env url = Inr resp"
      and "open_wb env tp (log (UrlOpen url) w) = (None, w2)"
      and "with_body env tp resp w2 = (r, w3)"
  shows "try_block env url tp fp w =
           (case fail_close env of
              Some m \<Rightarrow> (Some (Failed (OSError m)), log (Close tp) w3)
            | None \<Rightarrow>
                (case r of
                   Some e \<Rightarrow> (Some (Failed e), log (Close tp) w3)
                 | None \<Rightarrow> (map_option Failed (fst (os_replace env tp fp (log (Close tp) w3))),
                            snd (os_replace env tp fp (log (Close tp) w3)))))"
  using assms
  by (simp add: try_block_def urllib_urlopen_def file_close_def split: option.splits prod.splits)

lemma try_block_err:
  assumes "try_block env url tp fp w = (Some e, w')"
  shows "(\<forall>q. q \<noteq> tp \<longrightarrow> files w' q = files w q)
       \<and> (files w' tp = files w tp \<or> (\<exists>c. files w' tp = Some (File c)))"
proof (cases "net_urlopen env url")
  case (Inl e')
  with assms show ?thesis by (auto simp: try_block_def urllib_urlopen_def log_def)
next
  case (Inr resp)
  define w1 where "w1 = log (UrlOpen url) w"
  obtain o2 w2 where op: "open_wb env tp w1 = (o2, w2)" by (cases "open_wb env tp w1")
  show ?thesis
  proof (cases o2)
    case (Some e2)
    then have "w' = w2" using assms Inr op
      by (simp add: try_block_def urllib_urlopen_def w1_def[symmetric])
    moreover have "files w2 = files w"
      using op Some by (auto simp: open_wb_def w1_def log_def split: option.splits node.splits)
    ultimately show ?thesis by simp
  next
    case None
    have f2: "files w2 = (files w)(tp \<mapsto> File [])"
      using op None by (auto simp: open_wb_def w1_def log_def split: option.splits node.splits)
    obtain r w3 where wb: "with_body env tp resp w2 = (r, w3)" by (cases "with_body env tp resp w2")
    have f2tp: "files w2 tp = Some (File [])" using f2 by simp
    from with_body_files[OF f2tp wb]
    have f3: "\<forall>q. q \<noteq> tp \<longrightarrow> files w3 q = files w2 q" and f3tp: "\<exists>c. files w3 tp = Some (File c)"
      by auto
    obtain r5 w5 where rp: "os_replace env tp fp (log (Close tp) w3) = (r5, w5)"
      by (meson surj_pair)
    note tb = try_block_unfold[OF Inr op[unfolded w1_def None] wb, of fp, unfolded rp fst_conv snd_conv]
    have "files w' = files (log (Close tp) w3)"
    proof (cases r5)
      case None
      with assms tb show ?thesis by (auto split: option.splits)
    next
      case (Some e5)
      have "files w5 = files (log (Close tp) w3)" using rp Some by (auto dest: os_replace_err)
      with assms tb show ?thesis by (auto split: option.splits)
    qed
    then have "files w' = files w3" by (simp add: log_def)
    then show ?thesis using f3 f3tp f2 by simp
  qed
qed

lemma try_block_err_kind:
  assumes "try_block env url tp fp w = (Some e, w')"
  shows "(\<exists>e'. net_urlopen env url = Inl e' \<and> e = raised e' \<and> w' = log (UrlOpen url) w)
       \<or> (\<exists>resp e'. net_urlopen env url = Inr resp \<and> e = Failed e')"
proof (cases "net_urlopen env url")
  case (Inl e')
  with assms show ?thesis by (auto simp: try_block_def urllib_urlopen_def)
next
  case (Inr resp)
  obtain o2 w2 where op: "open_wb env tp (log (UrlOpen url) w) = (o2, w2)" by (meson surj_pair)
  show ?thesis
  proof (cases o2)
    case (Some e2)
    then show ?thesis using assms Inr op by (auto simp: try_block_def urllib_urlopen_def)
  next
    case None
    obtain r w3 where wb: "with_body env tp resp w2 = (r, w3)" by (meson surj_pair)
    from try_block_unfold[OF Inr op[unfolded None] wb, of fp] assms
    have "\<exists>e'. e = Failed e'"
      by (cases "fst (os_replace env tp fp (log (Close tp) w3))") (auto split: option.splits)
    with Inr show ?thesis by simp
  qed
qed

lemma try_block_urlopen_fails:
  "net_urlopen env url = Inl e \<Longrightarrow> try_block env url tp fp w = (Some (raised e), log (UrlOpen url) w)"
  by (simp add: try_block_def urllib_urlopen_def)

lemma raised_ValueError: "is_ValueError (raised e) = (\<exists>m. e = UrlValueError m)"
  by (cases e) simp_all

lemma finally_files:
  "files (finally_block env tp fp w) =
     (if files w fp = None \<and> fail_remove env = None \<and> (\<exists>c. files w tp = Some (File c))
      then (files w)(tp := None) else files w)"
  by (auto simp: finally_block_def os_path_exists_def os_remove_def log_def
        split: option.splits node.splits bool.splits)

lemma finally_trace:
  "\<exists>evs. trace (finally_block env tp fp w) = trace w @ Exists tp # evs"
  by (auto simp: finally_block_def os_path_exists_def os_remove_def log_def
        split: option.splits node.splits bool.splits)

lemma part_neq: "p @ py ''.part'' \<noteq> p"
  by (simp add: py_def)

subsection \<open>The digest and the file name\<close>

lemma length_round256: "length (round256 s x) = length s"
  by (induction s x rule: round256.induct) (simp_all add: Let_def)

lemma length_foldl_round256: "length (foldl round256 s xs) = length s"
  by (induction xs arbitrary: s) (simp_all add: length_round256)

lemma length_compress: "length (compress hs blk) = length hs"
  by (simp add: compress_def length_foldl_round256)

lemma length_blocks: "length (blocks hs ws) = length hs"
proof (induction hs ws rule: blocks.induct)
  case (1 hs ws)
  then show ?case by (subst blocks.simps) (simp add: length_compress)
qed

lemma length_sha256: "length (sha256 m) = 8"
  by (simp add: sha256_def length_blocks H256_def)

lemma length_hex32: "length (hex32 x) = 8"
  by (simp add: hex32_def)

lemma lower_hex_hex32: "list_all lower_hex (hex32 x)"
proof -
  have "lower_hex (hexdigit (y mod 16))" for y :: int
  proof -
    have "0 \<le> y mod 16" "y mod 16 < 16" by simp_all
    then show ?thesis by (auto simp: hexdigit_def lower_hex_def)
  qed
  then show ?thesis by (simp add: hex32_def)
qed

lemma length_concat_hex32: "length (concat (map hex32 ws)) = 8 * length ws"
  by (induction ws) (simp_all add: length_hex32)

lemma lower_hex_concat_hex32: "list_all lower_hex (concat (map hex32 ws))"
  by (induction ws) (simp_all add: lower_hex_hex32)

lemma length_hexdigest: "length (hexdigest m) = 64"
  by (simp add: hexdigest_def length_concat_hex32 length_sha256)

lemma lower_hex_hexdigest: "list_all lower_hex (hexdigest m)"
  by (simp add: hexdigest_def lower_hex_concat_hex32)

lemma hexdigest_no_slash: "take 1 (hexdigest m @ s) \<noteq> [47]"
proof -
  obtain c cs where cs: "hexdigest m = c # cs"
    using length_hexdigest[of m] by (cases "hexdigest m") auto
  with lower_hex_hexdigest[of m] have "lower_hex c" by simp
  then have "c \<noteq> 47" by (auto simp: lower_hex_def)
  with cs show ?thesis by simp
qed

lemma os_path_join_inject:
  "take 1 b \<noteq> [47] \<Longrightarrow> take 1 b' \<noteq> [47] \<Longrightarrow> (os_path_join a b = os_path_join a b') = (b = b')"
  by (auto simp: os_path_join_def)

lemma cache_filename_Inr:
  "cache_filename url = Inr fn \<Longrightarrow> \<exists>bs. encode_utf8 url = Inr bs \<and> fn = hexdigest bs @ py ''.pdf''"
  by (auto simp: cache_filename_def split: sum.splits)

lemma encode_utf8_ascii: "list_all (\<lambda>c. c < 128) url \<Longrightarrow> encode_utf8 url = Inr url"
  by (induction url) (simp_all add: utf8_char_def)

lemma valid_http_x: "valid_url env (py ''http://x/'' @ rest)"
  by (simp add: valid_url_def urlparse_def py_def lstrip_c0_def remove_unsafe_def split_scheme_def
       is_ascii_alpha_def scheme_char_def lower_char_def check_netloc_def splitnetloc_def is_ascii_def)

subsection \<open>The UTF-8 encoding is injective\<close>

lemma div_4096: "(c::int) div 4096 = c div 64 div 64"
  by (simp add: zdiv_zmult2_eq[symmetric])

lemma div_262144: "(c::int) div 262144 = c div 64 div 64 div 64"
  by (simp add: zdiv_zmult2_eq[symmetric])

lemma utf8_char_nonempty: "utf8_char c = Inr bs \<Longrightarrow> bs \<noteq> []"
  by (auto simp: utf8_char_def split: if_splits)

lemma decode1_utf8_char:
  assumes "utf8_char c = Inr bs" "0 \<le> c" "c < 1114112"
  shows "decode1 (bs @ r) = c"
proof -
  consider (1) "c < 128" | (2) "128 \<le> c" "c < 2048" | (3) "2048 \<le> c" "c < 65536" | (4) "65536 \<le> c"
    by linarith
  then show ?thesis
  proof cases
    case 1
    have bs: "bs = [c]" using assms(1) 1 by (auto simp: utf8_char_def)
    show ?thesis unfolding bs using 1 by (simp add: decode1_def)
  next
    case 2
    have bs: "bs = [192 + c div 64, 128 + c mod 64]"
      using assms(1) 2 by (simp add: utf8_char_def)
    have "2 \<le> c div 64" "c div 64 < 32" using 2 by linarith+
    then show ?thesis unfolding bs by (simp add: decode1_def)
  next
    case 3
    have bs: "bs = [224 + c div 64 div 64, 128 + (c div 64) mod 64, 128 + c mod 64]"
      using assms(1) 3 by (auto simp: utf8_char_def div_4096 split: if_splits)
    have "0 \<le> c div 64 div 64" "c div 64 div 64 < 16" using 3 by linarith+
    then show ?thesis unfolding bs by (simp add: decode1_def)
  next
    case 4
    have bs: "bs = [240 + c div 64 div 64 div 64, 128 + (c div 64 div 64) mod 64,
                    128 + (c div 64) mod 64, 128 + c mod 64]"
      using assms(1) 4 by (auto simp: utf8_char_def div_4096 div_262144 split: if_splits)
    have "0 \<le> c div 64 div 64 div 64" using 4 by linarith
    then show ?thesis unfolding bs by (simp add: decode1_def)
  qed
qed

lemma utf8_char_prefix_free:
  assumes "0 \<le> c" "c < 1114112" "0 \<le> d" "d < 1114112"
      and "utf8_char c = Inr bs" "utf8_char d = Inr bs'" "bs @ r = bs' @ r'"
  shows "c = d \<and> r = r'"
proof -
  have "c = decode1 (bs @ r)" using decode1_utf8_char[OF assms(5,1,2)] by simp
  also have "\<dots> = d" unfolding assms(7) using decode1_utf8_char[OF assms(6,3,4)] by simp
  finally have cd: "c = d" .
  then have "bs = bs'" using assms(5,6) by simp
  with assms(7) cd show ?thesis by simp
qed


lemma encode_utf8_inject:
  "wf_str u1 \<Longrightarrow> wf_str u2 \<Longrightarrow> encode_utf8 u1 = Inr b \<Longrightarrow> encode_utf8 u2 = Inr b \<Longrightarrow> u1 = u2"
proof (induction u1 arbitrary: u2 b)
  case Nil
  then show ?case
    by (cases u2) (auto split: sum.splits dest: utf8_char_nonempty)
next
  case (Cons c cs)
  show ?case
  proof (cases u2)
    case Nil
    with Cons.prems show ?thesis by (auto split: sum.splits dest: utf8_char_nonempty)
  next
    case (Cons d ds)
    from Cons.prems(3) obtain bs rest where
      c: "utf8_char c = Inr bs" "encode_utf8 cs = Inr rest" "b = bs @ rest"
      by (auto split: sum.splits)
    from Cons.prems(4) Cons obtain bs' rest' where
      d: "utf8_char d = Inr bs'" "encode_utf8 ds = Inr rest'" "b = bs' @ rest'"
      by (auto split: sum.splits)
    have wf: "0 \<le> c" "c < 1114112" "0 \<le> d" "d < 1114112" "wf_str cs" "wf_str ds"
      using Cons.prems(1,2) Cons by (simp_all add: wf_str_def)
    have "bs @ rest = bs' @ rest'" using c(3) d(3) by simp
    from utf8_char_prefix_free[OF wf(1-4) c(1) d(1) this] have e: "c = d" "rest = rest'" by simp_all
    have "cs = ds" using Cons.IH[OF wf(5,6) c(2)] d(2) e(2) by simp
    with e Cons show ?thesis by simp
  qed
qed

lemma utf8_examples:
  "encode_utf8 [233] = Inr [195, 169]"
  "encode_utf8 [8364] = Inr [226, 130, 172]"
  "encode_utf8 [128512] = Inr [240, 159, 152, 128]"
  "encode_utf8 [97, 56832] = Inl (UnicodeEncodeError 56832)"
  by (simp_all add: utf8_char_def)

subsection \<open>Runs without a failure of the file system\<close>

lemma finally_trace_absent:
  "files w tp = None \<Longrightarrow> finally_block env tp fp w = log (Exists tp) w"
  by (simp add: finally_block_def os_path_exists_def)

lemma try_block_no_fs_fault:
  assumes "net_urlopen env url = Inr resp" and "fail_open env tp = None"
      and "files w tp \<noteq> Some Dir" and "\<forall>n. fail_write env n = None"
  shows "\<exists>w3 evs. files w3 = (files w)(tp \<mapsto> File (body resp))
           \<and> trace w3 = trace w @ [UrlOpen url, OpenWB tp] @ evs @ [Close tp]
           \<and> list_all (chunk_event tp) evs
           \<and> try_block env url tp fp w =
               (case fail_close env of
                  Some m \<Rightarrow> (Some (Failed (OSError m)), w3)
                | None \<Rightarrow> (case failure resp of
                             Some e \<Rightarrow> (Some (Failed e), w3)
                           | None \<Rightarrow> (map_option Failed (fst (os_replace env tp fp w3)),
                                      snd (os_replace env tp fp w3))))"
proof -
  define w2 where "w2 = log (OpenWB tp) ((log (UrlOpen url) w)\<lparr>files := (files w)(tp \<mapsto> File [])\<rparr>)"
  have op: "open_wb env tp (log (UrlOpen url) w) = (None, w2)"
    using assms(2,3) by (auto simp: open_wb_def w2_def log_def split: option.splits node.splits)
  have f2: "files w2 tp = Some (File [])" and f2': "files w2 = (files w)(tp \<mapsto> File [])"
    and t2: "trace w2 = trace w @ [UrlOpen url, OpenWB tp]"
    by (simp_all add: w2_def log_def)
  from with_body_no_write_fault[OF f2 assms(4), of resp]
  obtain w' evs where
    wb: "with_body env tp resp w2 = (failure resp, w')"
    and fw: "files w' = (files w2)(tp \<mapsto> File ([] @ body resp))"
    and tw: "trace w' = trace w2 @ evs" and ev: "list_all (chunk_event tp) evs"
    by blast
  define w3 where "w3 = log (Close tp) w'"
  have "files w3 = (files w)(tp \<mapsto> File (body resp))"
    using fw f2' by (simp add: w3_def log_def)
  moreover have "trace w3 = trace w @ [UrlOpen url, OpenWB tp] @ evs @ [Close tp]"
    using tw t2 by (simp add: w3_def log_def)
  moreover have "try_block env url tp fp w =
      (case fail_close env of
         Some m \<Rightarrow> (Some (Failed (OSError m)), w3)
       | None \<Rightarrow> (case failure resp of
                    Some e \<Rightarrow> (Some (Failed e), w3)
                  | None \<Rightarrow> (map_option Failed (fst (os_replace env tp fp w3)),
                             snd (os_replace env tp fp w3))))"
    unfolding w3_def by (rule try_block_unfold[OF assms(1) op wb])
  ultimately show ?thesis using ev by blast
qed

lemma get_miss_paths:
  assumes "valid_url env url" and "cache_filename url = Inr fn"
      and "tempfile_gettempdir env w = (Inr d, w0)"
      and "files w0 (cache_path d fn) = None"
      and "try_block env url (staging_path d fn) (cache_path d fn)
             (log (Exists (cache_path d fn)) w0) = (r, w2)"
  shows "get_pdf_local_path env w url =
           (case r of Some e \<Rightarrow> Inl e | None \<Rightarrow> Inr (cache_path d fn),
            finally_block env (staging_path d fn) (cache_path d fn) w2)"
  using get_miss[OF assms(1,2,3), of r w2] assms(4,5)
  unfolding cache_path_def staging_path_def by simp

lemma get_miss_failed:
  assumes "valid_url env url" and "cache_filename url = Inr fn"
      and "tempfile_gettempdir env w = (Inr d, w0)"
      and "files w0 (cache_path d fn) = None"
      and "try_block env url (staging_path d fn) (cache_path d fn)
             (log (Exists (cache_path d fn)) w0) = (Some e, w2)"
  shows "get_pdf_local_path env w url =
           (Inl e, finally_block env (staging_path d fn) (cache_path d fn) w2)"
  using get_miss_paths[OF assms] by simp

lemma staging_neq: "staging_path d fn \<noteq> cache_path d fn"
  unfolding staging_path_def by (rule part_neq)

lemma download_ok:
  assumes "valid_url env url" and "cache_filename url = Inr fn"
      and "tempfile_gettempdir env w = (Inr d, w0)"
      and "files w0 (cache_path d fn) = None"
      and "files w0 (staging_path d fn) \<noteq> Some Dir"
      and "net_urlopen env url = Inr resp" and "failure resp = None"
      and "fail_open env (staging_path d fn) = None" and "\<forall>n. fail_write env n = None"
      and "fail_close env = None" and "fail_replace env = None"
  shows "\<exists>w' evs. get_pdf_local_path env w url = (Inr (cache_path d fn), w')
           \<and> files w' = (files w0)(staging_path d fn := None,
                                    cache_path d fn \<mapsto> File (body resp))
           \<and> trace w' = trace w0 @ [Exists (cache_path d fn), UrlOpen url,
                                      OpenWB (staging_path d fn)] @ evs
                           @ [Close (staging_path d fn),
                              Replace (staging_path d fn) (cache_path d fn),
                              Exists (staging_path d fn)]
           \<and> list_all (chunk_event (staging_path d fn)) evs"
proof -
  define fp where "fp = cache_path d fn"
  define tp where "tp = staging_path d fn"
  define w1 where "w1 = log (Exists fp) w0"
  have ne: "tp \<noteq> fp" unfolding tp_def fp_def by (rule staging_neq)
  have f1: "files w1 = files w0" and t1: "trace w1 = trace w0 @ [Exists fp]"
    by (simp_all add: w1_def log_def)
  have nd: "files w1 tp \<noteq> Some Dir" using assms(5) f1 by (simp add: tp_def)
  from try_block_no_fs_fault[OF assms(6) assms(8)[folded tp_def] nd assms(9), of fp]
  obtain w3 evs where
    f3: "files w3 = (files w1)(tp \<mapsto> File (body resp))"
    and t3: "trace w3 = trace w1 @ [UrlOpen url, OpenWB tp] @ evs @ [Close tp]"
    and ev: "list_all (chunk_event tp) evs"
    and tb: "try_block env url tp fp w1 =
               (map_option Failed (fst (os_replace env tp fp w3)), snd (os_replace env tp fp w3))"
    using assms(7,10) by auto
  define w4 where "w4 = log (Replace tp fp) (w3\<lparr>files := (files w3)(tp := None, fp \<mapsto> File (body resp))\<rparr>)"
  have "files w3 fp = None" using f3 f1 ne assms(4) by (simp add: fp_def)
  then have rp: "os_replace env tp fp w3 = (None, w4)"
    using assms(11) f3 by (simp add: os_replace_def w4_def)
  have tb': "try_block env url tp fp w1 = (None, w4)" unfolding tb rp by simp
  have f4: "files w4 = (files w0)(tp := None, fp \<mapsto> File (body resp))"
    using f3 f1 by (simp add: w4_def log_def)
  have t4: "trace w4 = trace w0 @ [Exists fp, UrlOpen url, OpenWB tp] @ evs @ [Close tp, Replace tp fp]"
    using t3 t1 by (simp add: w4_def log_def)
  have "files w4 tp = None" using f4 ne by simp
  then have fin: "finally_block env tp fp w4 = log (Exists tp) w4" by (rule finally_trace_absent)
  have "get_pdf_local_path env w url = (Inr fp, log (Exists tp) w4)"
    using get_miss_paths[OF assms(1,2,3,4) tb'[unfolded fp_def tp_def w1_def]] fin
    by (simp add: fp_def tp_def)
  moreover have "files (log (Exists tp) w4) = (files w0)(tp := None, fp \<mapsto> File (body resp))"
    using f4 by (simp add: log_def)
  moreover have "trace (log (Exists tp) w4) =
      trace w0 @ [Exists fp, UrlOpen url, OpenWB tp] @ evs @ [Close tp, Replace tp fp, Exists tp]"
    using t4 by (simp add: log_def)
  ultimately show ?thesis using ev unfolding fp_def tp_def by blast
qed

lemma get_miss_urlopen_fails:
  assumes "valid_url env url" and "cache_filename url = Inr fn"
      and "tempfile_gettempdir env w = (Inr d, w0)"
      and "files w0 (cache_path d fn) = None"
      and "net_urlopen env url = Inl e"
  shows "get_pdf_local_path env w url =
           (Inl (raised e),
            finally_block env (staging_path d fn) (cache_path d fn)
              (log (UrlOpen url) (log (Exists (cache_path d fn)) w0)))"
  by (rule get_miss_failed[OF assms(1-4) try_block_urlopen_fails[OF assms(5)]])

lemma get_valid_result:
  assumes "valid_url env url" and "cache_filename url = Inr fn"
      and "tempfile_gettempdir env w = (Inr d, w0)"
  shows "(files w0 (cache_path d fn) \<noteq> None
            \<and> get_pdf_local_path env w url
                = (Inr (cache_path d fn), log (Exists (cache_path d fn)) w0))
       \<or> (files w0 (cache_path d fn) = None
            \<and> (\<exists>e'. net_urlopen env url = Inl e'
                   \<and> get_pdf_local_path env w url =
                       (Inl (raised e'),
                        finally_block env (staging_path d fn) (cache_path d fn)
                          (log (UrlOpen url) (log (Exists (cache_path d fn)) w0)))))
       \<or> (files w0 (cache_path d fn) = None
            \<and> (\<exists>resp. net_urlopen env url = Inr resp)
            \<and> (fst (get_pdf_local_path env w url) = Inr (cache_path d fn)
                 \<or> (\<exists>e'. fst (get_pdf_local_path env w url) = Inl (Failed e'))))"
proof (cases "files w0 (cache_path d fn) = None")
  case False
  then show ?thesis using get_hit[OF assms] by (simp add: cache_path_def)
next
  case True
  show ?thesis
  proof (cases "net_urlopen env url")
    case (Inl e')
    from get_miss_urlopen_fails[OF assms True Inl] True Inl show ?thesis by simp
  next
    case (Inr resp)
    obtain r w2 where tb: "try_block env url (staging_path d fn) (cache_path d fn)
        (log (Exists (cache_path d fn)) w0) = (r, w2)"
      by (meson surj_pair)
    note g = get_miss_paths[OF assms True tb]
    show ?thesis
    proof (cases r)
      case None
      with g True Inr show ?thesis by simp
    next
      case (Some e)
      from try_block_err_kind[OF tb[unfolded Some]] Inr obtain e' where "e = Failed e'" by auto
      with g Some True Inr show ?thesis by simp
    qed
  qed
qed

lemma get_invalid_kind:
  assumes "\<not> valid_url env url"
  shows "(\<exists>m. get_pdf_local_path env w url = (Inl (ParseError m), w))
       \<or> (\<exists>sc. get_pdf_local_path env w url = (Inl (UnsupportedScheme sc), w))"
proof (cases "urlparse env url")
  case (Inl e)
  then obtain m where "e = ParseError m" using urlparse_error by blast
  with Inl show ?thesis by (simp add: get_pdf_local_path_def)
next
  case (Inr sc)
  with assms show ?thesis by (simp add: get_pdf_local_path_def valid_url_def)
qed

lemma get_Inr_path:
  assumes "fst (get_pdf_local_path env w url) = Inr p"
  shows "valid_url env url
       \<and> (\<exists>fn d. cache_filename url = Inr fn \<and> fst (tempfile_gettempdir env w) = Inr d
                \<and> p = cache_path d fn)"
proof -
  have v: "valid_url env url"
    using assms get_invalid[of env url w] by (cases "valid_url env url") auto
  obtain fn where fn: "cache_filename url = Inr fn"
    using assms get_unencodable[OF v, of _ w] by (cases "cache_filename url") auto
  obtain r0 w0 where td: "tempfile_gettempdir env w = (r0, w0)" by (meson surj_pair)
  obtain d where d: "r0 = Inr d"
    using assms get_notempdir[OF v fn, of w _ w0] td by (cases r0) auto
  have "p = cache_path d fn"
    using get_valid_result[OF v fn td[unfolded d]] assms by auto
  with v fn td d show ?thesis by simp
qed

subsection \<open>The concrete setting\<close>

lemma sha256_abc:
  "hexdigest (py ''abc'') = py ''ba7816bf8f01cfea414140de5dae2223b00361a396177a9cb410ff61f20015ad''"
  by code_simp

lemma example_digest: "hexdigest example_url @ py ''.pdf'' = example_filename"
  by code_simp

lemma example_encode: "encode_utf8 example_url = Inr example_url"
  by (rule encode_utf8_ascii) (simp add: example_url_def py_def)

lemma example_cache_filename: "cache_filename example_url = Inr example_filename"
  by (simp add: cache_filename_def example_encode example_digest)

lemma example_valid: "valid_url env example_url"
  by (simp add: valid_url_def example_url_def urlparse_def py_def lstrip_c0_def remove_unsafe_def
       split_scheme_def is_ascii_alpha_def scheme_char_def lower_char_def check_netloc_def
       splitnetloc_def is_ascii_def)

lemma example_cache_path: "cache_path (py ''/tmp'') example_filename = example_path"
  by (simp add: cache_path_def os_path_join_def example_path_def example_filename_def py_def)

lemma example_staging_path:
  "staging_path (py ''/tmp'') example_filename = example_path @ py ''.part''"
  by (simp add: staging_path_def example_cache_path)

lemma example_paths_differ: "example_path @ py ''.part'' \<noteq> example_path"
  by (rule part_neq)

lemma gettempdir_warm:
  "tempfile_gettempdir env (warm_world\<lparr>files := fs\<rparr>)
     = (Inr (py ''/tmp''), warm_world\<lparr>files := fs\<rparr>)"
  by (simp add: tempfile_gettempdir_def warm_world_def)

lemma gettempdir_warm_empty:
  "tempfile_gettempdir env warm_world = (Inr (py ''/tmp''), warm_world)"
  by (simp add: tempfile_gettempdir_def warm_world_def)

text \<open>
  The first \<open>gettempdir()\<close> of a process, with \<open>/tmp\<close> the only candidate: a scratch
  file is created, written, closed and unlinked, and the directory is remembered.
\<close>

lemma gettempdir_cold:
  assumes "candidate_dirs env = [py ''/tmp'']" and "scratch_names env = [py ''k3x_9qzt'']"
      and "fail_scratch_open env (py ''/tmp/k3x_9qzt'') = None"
      and "fail_scratch_write env (py ''/tmp/k3x_9qzt'') = None"
      and "fail_scratch_unlink env (py ''/tmp/k3x_9qzt'') = None"
      and "fs (py ''/tmp/k3x_9qzt'') = None"
  shows "tempfile_gettempdir env (cold_world\<lparr>files := fs\<rparr>)
     = (Inr (py ''/tmp''),
        \<lparr>files = fs,
         trace = [OpenExcl (py ''/tmp/k3x_9qzt''), Write (py ''/tmp/k3x_9qzt'') 4,
                  Close (py ''/tmp/k3x_9qzt''), Remove (py ''/tmp/k3x_9qzt'')],
         tempdir_cache = Some (py ''/tmp'')\<rparr>)"
proof -
  have j: "os_path_join (py ''/tmp'') (py ''k3x_9qzt'') = py ''/tmp/k3x_9qzt''"
    by (simp add: os_path_join_def py_def)
  from assms(6) have u: "fs(py ''/tmp/k3x_9qzt'' := None) = fs"
    by (rule fun_upd_idem)
  have sa: "scratch_attempt env (py ''/tmp/k3x_9qzt'') (cold_world\<lparr>files := fs\<rparr>)
      = (Found, \<lparr>files = fs,
         trace = [OpenExcl (py ''/tmp/k3x_9qzt''), Write (py ''/tmp/k3x_9qzt'') 4,
                  Close (py ''/tmp/k3x_9qzt''), Remove (py ''/tmp/k3x_9qzt'')],
         tempdir_cache = None\<rparr>)"
    using assms(3-6) by (simp add: scratch_attempt_def cold_world_def log_def Let_def u)
  have c: "tempdir_cache (cold_world\<lparr>files := fs\<rparr>) = None" by (simp add: cold_world_def)
  have g: "get_default_tempdir env (candidate_dirs env) (scratch_names env)
             (cold_world\<lparr>files := fs\<rparr>)
      = (Inr (py ''/tmp''), \<lparr>files = fs,
         trace = [OpenExcl (py ''/tmp/k3x_9qzt''), Write (py ''/tmp/k3x_9qzt'') 4,
                  Close (py ''/tmp/k3x_9qzt''), Remove (py ''/tmp/k3x_9qzt'')],
         tempdir_cache = None\<rparr>)"
    by (simp add: assms(1,2) try_names_pos j sa)
  show ?thesis
    by (simp add: tempfile_gettempdir_def c g)
qed

lemma gettempdir_cold_example:
  assumes "fs (py ''/tmp/k3x_9qzt'') = None"
  shows "tempfile_gettempdir example_env (cold_world\<lparr>files := fs\<rparr>)
     = (Inr (py ''/tmp''),
        \<lparr>files = fs,
         trace = [OpenExcl (py ''/tmp/k3x_9qzt''), Write (py ''/tmp/k3x_9qzt'') 4,
                  Close (py ''/tmp/k3x_9qzt''), Remove (py ''/tmp/k3x_9qzt'')],
         tempdir_cache = Some (py ''/tmp'')\<rparr>)"
  by (rule gettempdir_cold) (simp_all add: example_env_def assms)

lemma example_download:
  "fst (get_pdf_local_path example_env warm_world example_url) = Inr example_path"
proof -
  have "\<exists>w' evs. get_pdf_local_path example_env warm_world example_url
            = (Inr (cache_path (py ''/tmp'') example_filename), w')
          \<and> files w' = (files warm_world)(staging_path (py ''/tmp'') example_filename := None,
                 cache_path (py ''/tmp'') example_filename
                   \<mapsto> File (body \<lparr>body = py ''%PDF-1.4'', failure = None, missing = []\<rparr>))
          \<and> trace w' = trace warm_world @ [Exists (cache_path (py ''/tmp'') example_filename),
                 UrlOpen example_url, OpenWB (staging_path (py ''/tmp'') example_filename)] @ evs
                 @ [Close (staging_path (py ''/tmp'') example_filename),
                    Replace (staging_path (py ''/tmp'') example_filename)
                      (cache_path (py ''/tmp'') example_filename),
                    Exists (staging_path (py ''/tmp'') example_filename)]
          \<and> list_all (chunk_event (staging_path (py ''/tmp'') example_filename)) evs"
    by (rule download_ok[OF example_valid example_cache_filename gettempdir_warm_empty])
       (simp_all add: example_env_def warm_world_def)
  then show ?thesis by (auto simp: example_cache_path)
qed

subsection \<open>Schemes up to letter case\<close>

lemma lower_char_alpha: "97 \<le> lower_char c \<and> lower_char c \<le> 122 \<Longrightarrow> is_ascii_alpha c"
  by (auto simp: lower_char_def is_ascii_alpha_def split: if_splits)

lemma lower_char_idem: "lower_char (lower_char c) = lower_char c"
  by (simp add: lower_char_def)

lemma map_lower_char_idem: "map lower_char (map lower_char S) = map lower_char S"
  by (induction S) (simp_all add: lower_char_idem)

lemma cased_http_alpha:
  assumes "map lower_char S = py ''http'' \<or> map lower_char S = py ''https''"
  shows "S \<noteq> [] \<and> list_all is_ascii_alpha S"
proof -
  have "list_all (\<lambda>x. 97 \<le> x \<and> x \<le> 122) (map lower_char S)"
    using assms by (auto simp: py_def)
  then have "list_all is_ascii_alpha S"
    by (auto simp: list_all_iff intro: lower_char_alpha)
  moreover have "S \<noteq> []" using assms by (auto simp: py_def)
  ultimately show ?thesis by simp
qed

lemma split_scheme_alpha:
  assumes "S \<noteq> []" and "list_all is_ascii_alpha S"
  shows "split_scheme (remove_unsafe (lstrip_c0 (S @ 58 # rest)))
           = (map lower_char S, remove_unsafe rest)"
proof -
  obtain a S' where S: "S = a # S'" using assms(1) by (cases S) auto
  have a: "is_ascii_alpha a" using assms(2) S by simp
  have all: "\<And>x. x \<in> set S \<Longrightarrow> is_ascii_alpha x" using assms(2) by (simp add: list_all_iff)
  have strip: "lstrip_c0 (S @ 58 # rest) = S @ 58 # rest"
    using a by (auto simp: lstrip_c0_def S is_ascii_alpha_def)
  have big: "65 \<le> x" if "x \<in> set S" for x
    using all[OF that] by (auto simp: is_ascii_alpha_def)
  have "filter (\<lambda>c. c \<noteq> 9 \<and> c \<noteq> 13 \<and> c \<noteq> 10) S = S"
    by (rule filter_True) (use big in force)
  then have unsafe: "remove_unsafe (S @ 58 # rest) = S @ 58 # remove_unsafe rest"
    by (simp add: remove_unsafe_def)
  have tw: "takeWhile (\<lambda>c. c \<noteq> 58) (S @ 58 # remove_unsafe rest) = S"
    by (subst takeWhile_append2) (use big in force, simp)
  have sc: "list_all scheme_char S"
    using all by (simp add: list_all_iff scheme_char_def)
  have hd: "is_ascii_alpha (hd S)" using a S by simp
  show ?thesis
    unfolding strip unsafe split_scheme_def tw Let_def
    using assms(1) sc hd by simp
qed

lemma urlparse_cased:
  assumes "map lower_char S = py ''http'' \<or> map lower_char S = py ''https''"
  shows "urlparse env (S @ 58 # rest) =
           (if take 2 (remove_unsafe rest) = [47, 47]
            then (case check_netloc env (splitnetloc (remove_unsafe rest)) of
                    Some e \<Rightarrow> Inl e | None \<Rightarrow> Inr (map lower_char S))
            else Inr (map lower_char S))"
  using split_scheme_alpha[of S rest] cased_http_alpha[OF assms]
  by (simp add: urlparse_def)

subsection \<open>Failed downloads\<close>

lemma finally_remove_fails:
  assumes "fail_remove env = Some e'" and "files w fp = None"
  shows "finally_block env tp fp w =
           (if files w tp = None then log (Exists tp) w
            else log (Remove tp) (log (Exists fp) (log (Exists tp) w)))"
  using assms
  by (auto simp: finally_block_def os_path_exists_def os_remove_def log_def split: bool.splits)

subsection \<open>Checks of the model against the library\<close>

lemma digest_x_a:
  "hexdigest (py ''http://x/a'')
     = py ''dbf012bfe46a5772cde8cc40c84fac435f8cf833c21bad4608db7bdbf1ecf9aa''"
  by code_simp

lemma digest_x_a_slash:
  "hexdigest (py ''http://x/a/'')
     = py ''5c9fbae9b1dcb117444493f0c8c8eb22dcca0beb87d0154e094df1948d375b80''"
  by code_simp

text \<open>
  A download on a warm process from a server whose response delivers \<open>%PDF\<close> and then
  ends as \<open>resp\<close> says, with a staging file that can be opened and written.
\<close>

lemma four_byte_download:
  assumes "net_urlopen env example_url = Inr resp" and "body resp = py ''%PDF''"
      and "fail_open env (example_path @ py ''.part'') = None"
      and "\<forall>n. fail_write env n = None"
  shows "\<exists>w3. files w3 = [example_path @ py ''.part'' \<mapsto> File (py ''%PDF'')]
            \<and> try_block env example_url (staging_path (py ''/tmp'') example_filename)
                (cache_path (py ''/tmp'') example_filename)
                (log (Exists (cache_path (py ''/tmp'') example_filename)) warm_world) =
               (case fail_close env of
                  Some m \<Rightarrow> (Some (Failed (OSError m)), w3)
                | None \<Rightarrow> (case failure resp of
                             Some e \<Rightarrow> (Some (Failed e), w3)
                           | None \<Rightarrow>
                               (map_option Failed
                                  (fst (os_replace env (example_path @ py ''.part'') example_path w3)),
                                snd (os_replace env (example_path @ py ''.part'') example_path w3))))"
proof -
  have nd: "files (log (Exists example_path) warm_world) (example_path @ py ''.part'') \<noteq> Some Dir"
    by (simp add: warm_world_def log_def)
  from try_block_no_fs_fault[OF assms(1,3) nd assms(4), of example_path]
  obtain w3 where
    f3: "files w3 = (files (log (Exists example_path) warm_world))
                      (example_path @ py ''.part'' \<mapsto> File (body resp))"
    and tb: "try_block env example_url (example_path @ py ''.part'') example_path
               (log (Exists example_path) warm_world) =
             (case fail_close env of
                Some m \<Rightarrow> (Some (Failed (OSError m)), w3)
              | None \<Rightarrow> (case failure resp of
                           Some e \<Rightarrow> (Some (Failed e), w3)
                         | None \<Rightarrow>
                             (map_option Failed
                                (fst (os_replace env (example_path @ py ''.part'') example_path w3)),
                              snd (os_replace env (example_path @ py ''.part'') example_path w3))))"
    by blast
  have "files w3 = [example_path @ py ''.part'' \<mapsto> File (py ''%PDF'')]"
    unfolding f3 assms(2) by (simp add: log_def warm_world_def)
  with tb show ?thesis unfolding example_cache_path example_staging_path by blast
qed

lemma failed_download:
  assumes "net_urlopen env example_url = Inr resp" and "body resp = py ''%PDF''"
      and "failure resp = Some e"
      and "fail_open env (example_path @ py ''.part'') = None"
      and "\<forall>n. fail_write env n = None"
  shows "\<exists>w3. files w3 = [example_path @ py ''.part'' \<mapsto> File (py ''%PDF'')]
            \<and> get_pdf_local_path env warm_world example_url =
                (Inl (Failed (case fail_close env of Some m \<Rightarrow> OSError m | None \<Rightarrow> e)),
                 finally_block env (example_path @ py ''.part'') example_path w3)"
proof -
  have miss: "files warm_world (cache_path (py ''/tmp'') example_filename) = None"
    by (simp add: warm_world_def)
  from four_byte_download[OF assms(1,2,4,5)] obtain w3 where
    f3: "files w3 = [example_path @ py ''.part'' \<mapsto> File (py ''%PDF'')]"
    and tb: "try_block env example_url (staging_path (py ''/tmp'') example_filename)
                (cache_path (py ''/tmp'') example_filename)
                (log (Exists (cache_path (py ''/tmp'') example_filename)) warm_world) =
               (Some (Failed (case fail_close env of Some m \<Rightarrow> OSError m | None \<Rightarrow> e)), w3)"
    using assms(3) by (auto split: option.splits)
  from get_miss_failed[OF example_valid example_cache_filename gettempdir_warm_empty miss tb] f3
  show ?thesis unfolding example_cache_path example_staging_path by blast
qed

lemma digest_non_ascii:
  "hexdigest (py ''http://127.0.0.1:9/'' @ [195, 169])
     = py ''aa68816d1387600a6850bcc66c29ef75df48ed2e62ced7bd123f3f930c327978''"
  by code_simp

lemma sha256_two_blocks:
  "hexdigest (py ''abcdbcdecdefdefgefghfghighijhijkijkljklmklmnlmnomnopnopq'')
     = py ''248d6a61d20638b8e5c026930c3e6039a33ce45964ff2167f6ecedd419db06c1''"
  by code_simp

lemma with_body_two_chunks:
  "with_body example_env p \<lparr>body = replicate 10000 0, failure = None, missing = []\<rparr>
     \<lparr>files = [p \<mapsto> File []], trace = [], tempdir_cache = None\<rparr>
   = (None, \<lparr>files = [p \<mapsto> File (replicate 10000 0)],
             trace = [Read 8192, Write p 8192, Read 8192, Write p 1808, Read 8192],
             tempdir_cache = None\<rparr>)"
  by (simp add: with_body_def resp_read_def copy_loop.simps file_write_def log_def
        example_env_def replicate_add[symmetric])

lemma urlparse_examples:
  "urlparse example_env (py ''hTtPs://a'') = Inr (py ''https'')"
  "urlparse example_env ([32, 32, 1] @ py ''http://a'') = Inr (py ''http'')"
  "urlparse example_env (py ''ht'' @ [10] @ py ''tp://a'') = Inr (py ''http'')"
  "urlparse example_env (py ''1http://a'') = Inr []"
  "urlparse example_env (py ''//x/y'') = Inr []"
  "urlparse example_env (py ''http+x://a'') = Inr (py ''http+x'')"
  "urlparse example_env (py ''http://[x/'') = Inl (ParseError ''Invalid IPv6 URL'')"
  by (simp_all add: urlparse_def py_def lstrip_c0_def remove_unsafe_def split_scheme_def
        is_ascii_alpha_def scheme_char_def lower_char_def check_netloc_def splitnetloc_def
        is_ascii_def)

subsection \<open>The directory found is remembered\<close>

lemma copy_loop_cache:
  "copy_loop env p chunk r w = (res, w') \<Longrightarrow> tempdir_cache w' = tempdir_cache w"
proof (induction env p chunk r w arbitrary: res w' rule: copy_loop.induct)
  case (1 env p chunk r w)
  show ?case
  proof (cases "chunk = []")
    case True
    with "1.prems" show ?thesis by (simp add: copy_loop.simps)
  next
    case False
    obtain o1 w1 where fw: "file_write env p chunk w = (o1, w1)" by (meson surj_pair)
    have c1: "tempdir_cache w1 = tempdir_cache w"
      using fw by (auto simp: file_write_def log_def split: option.splits node.splits)
    show ?thesis
    proof (cases o1)
      case (Some e)
      with "1.prems" False fw have "w' = w1" by (subst (asm) copy_loop.simps) simp
      with c1 show ?thesis by simp
    next
      case None
      obtain x r' w2 where rd: "resp_read 8192 r w1 = (x, r', w2)" by (metis surj_pair)
      have c2: "tempdir_cache w2 = tempdir_cache w1"
        using rd by (auto simp: resp_read_def log_def split: if_splits option.splits)
      show ?thesis
      proof (cases x)
        case (Inl e)
        with "1.prems" False fw None rd have "w' = w2" by (subst (asm) copy_loop.simps) simp
        with c1 c2 show ?thesis by simp
      next
        case (Inr chunk')
        with "1.prems" False fw None rd have "copy_loop env p chunk' r' w2 = (res, w')"
          by (subst (asm) copy_loop.simps) simp
        from "1.IH"[OF False fw[symmetric, unfolded None] refl rd[symmetric, unfolded Inr] refl refl this]
        show ?thesis using c1 c2 by simp
      qed
    qed
  qed
qed

lemma with_body_cache:
  "with_body env p r w = (res, w') \<Longrightarrow> tempdir_cache w' = tempdir_cache w"
proof -
  assume a: "with_body env p r w = (res, w')"
  obtain x r' w1 where rd: "resp_read 8192 r w = (x, r', w1)" by (metis surj_pair)
  have c1: "tempdir_cache w1 = tempdir_cache w"
    using rd by (auto simp: resp_read_def log_def split: if_splits option.splits)
  show ?thesis
  proof (cases x)
    case (Inl e)
    with a rd have "w' = w1" by (simp add: with_body_def)
    with c1 show ?thesis by simp
  next
    case (Inr chunk)
    with a rd have "copy_loop env p chunk r' w1 = (res, w')" by (simp add: with_body_def)
    from copy_loop_cache[OF this] c1 show ?thesis by simp
  qed
qed

lemma try_block_cache:
  assumes "try_block env url tp fp w = (r, w')"
  shows "tempdir_cache w' = tempdir_cache w"
proof (cases "net_urlopen env url")
  case (Inl e')
  with assms show ?thesis by (auto simp: try_block_def urllib_urlopen_def log_def)
next
  case (Inr resp)
  obtain o2 w2 where op: "open_wb env tp (log (UrlOpen url) w) = (o2, w2)" by (meson surj_pair)
  have c2: "tempdir_cache w2 = tempdir_cache w"
    using op by (auto simp: open_wb_def log_def split: option.splits node.splits)
  show ?thesis
  proof (cases o2)
    case (Some e2)
    then have "w' = w2" using assms Inr op by (simp add: try_block_def urllib_urlopen_def)
    with c2 show ?thesis by simp
  next
    case None
    obtain r3 w3 where wb: "with_body env tp resp w2 = (r3, w3)" by (meson surj_pair)
    have c3: "tempdir_cache w3 = tempdir_cache w2" using wb by (rule with_body_cache)
    have c5: "tempdir_cache (snd (os_replace env tp fp (log (Close tp) w3))) = tempdir_cache w3"
      by (auto simp: os_replace_def log_def split: option.splits node.splits)
    from try_block_unfold[OF Inr op[unfolded None] wb, of fp] assms
    have "w' = log (Close tp) w3 \<or> w' = snd (os_replace env tp fp (log (Close tp) w3))"
      by (auto split: option.splits)
    then show ?thesis using c2 c3 c5 by (auto simp: log_def)
  qed
qed

lemma finally_cache: "tempdir_cache (finally_block env tp fp w) = tempdir_cache w"
  by (auto simp: finally_block_def os_path_exists_def os_remove_def log_def
        split: option.splits node.splits bool.splits)

lemma gettempdir_sets_cache:
  "tempfile_gettempdir env w = (Inr d, w0) \<Longrightarrow> tempdir_cache w0 = Some d"
  by (auto simp: tempfile_gettempdir_def split: option.splits sum.splits prod.splits)

lemma get_keeps_tempdir:
  assumes "valid_url env url" and "cache_filename url = Inr fn"
      and "tempfile_gettempdir env w = (Inr d, w0)"
  shows "tempdir_cache (snd (get_pdf_local_path env w url)) = Some d"
proof (cases "files w0 (cache_path d fn) = None")
  case False
  then show ?thesis
    using get_hit[OF assms] gettempdir_sets_cache[OF assms(3)] by (simp add: cache_path_def log_def)
next
  case True
  obtain r w2 where tb: "try_block env url (staging_path d fn) (cache_path d fn)
      (log (Exists (cache_path d fn)) w0) = (r, w2)"
    by (meson surj_pair)
  from get_miss_paths[OF assms True tb] try_block_cache[OF tb] gettempdir_sets_cache[OF assms(3)]
  show ?thesis by (simp add: finally_cache log_def)
qed

text \<open>
  The end-to-end example, in a process that has not asked for the temporary directory
  before: the first call looks for the directory, downloads and returns a path whose
  file holds the bytes served; the second call returns the same path and only probes it.
\<close>

lemma end_to_end_example:
  "\<exists>w1. get_pdf_local_path example_env cold_world example_url = (Inr example_path, w1)
        \<and> files w1 = [example_path \<mapsto> File (py ''%PDF-1.4'')]
        \<and> get_pdf_local_path example_env w1 example_url
            = (Inr example_path, w1\<lparr>trace := trace w1 @ [Exists example_path]\<rparr>)"
proof -
  let ?resp = "\<lparr>body = py ''%PDF-1.4'', failure = None, missing = []\<rparr>"
  let ?w0 = "\<lparr>files = Map.empty,
         trace = [OpenExcl (py ''/tmp/k3x_9qzt''), Write (py ''/tmp/k3x_9qzt'') 4,
                  Close (py ''/tmp/k3x_9qzt''), Remove (py ''/tmp/k3x_9qzt'')],
         tempdir_cache = Some (py ''/tmp'')\<rparr>"
  have "tempfile_gettempdir example_env (cold_world\<lparr>files := Map.empty\<rparr>) = (Inr (py ''/tmp''), ?w0)"
    by (rule gettempdir_cold_example) simp
  then have td: "tempfile_gettempdir example_env cold_world = (Inr (py ''/tmp''), ?w0)"
    by (simp add: cold_world_def)
  have "\<exists>w' evs. get_pdf_local_path example_env cold_world example_url
            = (Inr (cache_path (py ''/tmp'') example_filename), w')
          \<and> files w' = (files ?w0)(staging_path (py ''/tmp'') example_filename := None,
                 cache_path (py ''/tmp'') example_filename \<mapsto> File (body ?resp))
          \<and> trace w' = trace ?w0 @ [Exists (cache_path (py ''/tmp'') example_filename),
                 UrlOpen example_url, OpenWB (staging_path (py ''/tmp'') example_filename)] @ evs
                 @ [Close (staging_path (py ''/tmp'') example_filename),
                    Replace (staging_path (py ''/tmp'') example_filename)
                      (cache_path (py ''/tmp'') example_filename),
                    Exists (staging_path (py ''/tmp'') example_filename)]
          \<and> list_all (chunk_event (staging_path (py ''/tmp'') example_filename)) evs"
    by (rule download_ok[OF example_valid example_cache_filename td])
       (simp_all add: example_env_def)
  then obtain w1 where
    g: "get_pdf_local_path example_env cold_world example_url = (Inr example_path, w1)"
    and f: "files w1 = (Map.empty)(example_path @ py ''.part'' := None,
                          example_path \<mapsto> File (py ''%PDF-1.4''))"
    unfolding example_cache_path example_staging_path by auto
  have f': "files w1 = [example_path \<mapsto> File (py ''%PDF-1.4'')]"
    unfolding f by (rule ext) simp
  have c: "tempdir_cache w1 = Some (py ''/tmp'')"
    using get_keeps_tempdir[OF example_valid example_cache_filename td] g by simp
  have td1: "tempfile_gettempdir example_env w1 = (Inr (py ''/tmp''), w1)"
    using c by (rule gettempdir_cached)
  have hit: "files w1 (os_path_join (py ''/tmp'') example_filename) \<noteq> None"
    using f' example_cache_path by (simp add: cache_path_def)
  from get_hit[OF example_valid example_cache_filename td1 hit]
  have "get_pdf_local_path example_env w1 example_url
          = (Inr example_path, w1\<lparr>trace := trace w1 @ [Exists example_path]\<rparr>)"
    using example_cache_path by (simp add: cache_path_def log_def)
  with g f' show ?thesis by blast
qed

section \<open>Properties of get_pdf_local_path\<close>

text \<open>
  C1, as stated, fails. A server that closes the connection after four of the eight
  bytes of the entity makes \<open>read\<close> return the empty bytes object, which the loop takes
  for the end of the body: the call returns the final path, and the file under the final
  name holds the four bytes only. And when the connection is reset while the body is
  read and closing the staging file fails as well, the caller receives the error of the
  close, not the download error.
\<close>

theorem staging_invariant_counterexample:
  "net_urlopen truncating_env example_url
     = Inr \<lparr>body = py ''%PDF'', failure = None, missing = py ''-1.4''\<rparr>
   \<and> fst (get_pdf_local_path truncating_env warm_world example_url) = Inr example_path
   \<and> files (snd (get_pdf_local_path truncating_env warm_world example_url)) example_path
       = Some (File (py ''%PDF''))
   \<and> net_urlopen close_failing_env example_url
       = Inr \<lparr>body = py ''%PDF'', failure = Some (OSError ''ConnectionResetError''),
              missing = py ''-1.4''\<rparr>
   \<and> fail_close close_failing_env = Some ''ENOSPC''
   \<and> fst (get_pdf_local_path close_failing_env warm_world example_url)
       = Inl (Failed (OSError ''ENOSPC''))"
proof -
  let ?t = "\<lparr>body = py ''%PDF'', failure = None, missing = py ''-1.4''\<rparr>"
  let ?r = "\<lparr>body = py ''%PDF'', failure = Some (OSError ''ConnectionResetError''),
             missing = py ''-1.4''\<rparr>"
  let ?e2 = "close_failing_env"
  have n1: "net_urlopen truncating_env example_url = Inr ?t"
    by (simp add: truncating_env_def)
  have n2: "net_urlopen ?e2 example_url = Inr ?r"
    by (simp add: close_failing_env_def reset_env_def)
  have fc: "fail_close ?e2 = Some ''ENOSPC''"
    by (simp add: close_failing_env_def)
  have "\<exists>w' evs. get_pdf_local_path truncating_env warm_world example_url
            = (Inr (cache_path (py ''/tmp'') example_filename), w')
          \<and> files w' = (files warm_world)(staging_path (py ''/tmp'') example_filename := None,
                 cache_path (py ''/tmp'') example_filename \<mapsto> File (body ?t))
          \<and> trace w' = trace warm_world @ [Exists (cache_path (py ''/tmp'') example_filename),
                 UrlOpen example_url, OpenWB (staging_path (py ''/tmp'') example_filename)] @ evs
                 @ [Close (staging_path (py ''/tmp'') example_filename),
                    Replace (staging_path (py ''/tmp'') example_filename)
                      (cache_path (py ''/tmp'') example_filename),
                    Exists (staging_path (py ''/tmp'') example_filename)]
          \<and> list_all (chunk_event (staging_path (py ''/tmp'') example_filename)) evs"
    by (rule download_ok[OF example_valid example_cache_filename gettempdir_warm_empty])
       (simp_all add: truncating_env_def example_env_def warm_world_def)
  then have r1: "fst (get_pdf_local_path truncating_env warm_world example_url) = Inr example_path"
    and f1: "files (snd (get_pdf_local_path truncating_env warm_world example_url)) example_path
               = Some (File (py ''%PDF''))"
    by (auto simp: example_cache_path)
  have "\<exists>w3. files w3 = [example_path @ py ''.part'' \<mapsto> File (py ''%PDF'')]
            \<and> get_pdf_local_path ?e2 warm_world example_url =
                (Inl (Failed (case fail_close ?e2 of
                                Some m \<Rightarrow> OSError m
                              | None \<Rightarrow> OSError ''ConnectionResetError'')),
                 finally_block ?e2 (example_path @ py ''.part'') example_path w3)"
    by (rule failed_download[OF n2])
       (simp_all add: close_failing_env_def reset_env_def example_env_def)
  then have r2: "fst (get_pdf_local_path ?e2 warm_world example_url)
                   = Inl (Failed (OSError ''ENOSPC''))"
    by (auto simp: fc)
  from n1 r1 f1 n2 fc r2 show ?thesis by (intro conjI)
qed

text \<open>
  C1, amended. For a valid URL whose file name can be computed, in a call that finds its
  temporary directory: the search for the directory leaves every existing file as it is
  (and all files, when the process knows the directory already or no unlink fails). At
  the end of the call the final path holds what it held after that search or, after a
  download, exactly the bytes that the response delivered before \<open>read\<close> returned the
  empty bytes object without raising; these are the whole entity when nothing of it is
  missing, and the code has no means to tell. The call either returns the final path,
  which then exists, or raises the error of \<open>urlopen\<close> or of a later network or file
  operation, and then the final path does not exist; in that case the staging file
  does not exist either, provided \<open>os.remove\<close> does not fail and the staging path is
  not a directory (the cleanup is best effort). When \<open>urlopen\<close> raises, the caller
  receives that error; when reading the response raises, the caller receives that error
  as long as opening, writing and closing the staging file did not fail.
\<close>

theorem staging_invariant:
  assumes "valid_url env url" and "cache_filename url = Inr fn"
      and "tempfile_gettempdir env w = (Inr d, w0)"
      and "get_pdf_local_path env w url = (res, w')"
  shows "(\<forall>q. files w q \<noteq> None \<longrightarrow> files w0 q = files w q)
       \<and> (tempdir_cache w \<noteq> None \<or> (\<forall>p. fail_scratch_unlink env p = None)
            \<longrightarrow> files w0 = files w)
       \<and> (files w' (cache_path d fn) = files w0 (cache_path d fn)
            \<or> (\<exists>resp. net_urlopen env url = Inr resp \<and> failure resp = None
                  \<and> files w' (cache_path d fn) = Some (File (body resp))
                  \<and> (missing resp = []
                       \<longrightarrow> files w' (cache_path d fn)
                             = Some (File (body resp @ missing resp)))))
       \<and> ((res = Inr (cache_path d fn) \<and> files w' (cache_path d fn) \<noteq> None)
            \<or> (((\<exists>e. res = Inl (Failed e))
                  \<or> (\<exists>e. net_urlopen env url = Inl e \<and> res = Inl (raised e)))
                \<and> files w' (cache_path d fn) = None))
       \<and> (fail_remove env = None \<and> files w0 (staging_path d fn) \<noteq> Some Dir
              \<and> files w' (cache_path d fn) = None
            \<longrightarrow> files w' (staging_path d fn) = None)
       \<and> (\<forall>e. files w0 (cache_path d fn) = None \<and> net_urlopen env url = Inl e
            \<longrightarrow> res = Inl (raised e))
       \<and> (\<forall>resp e. files w0 (cache_path d fn) = None \<and> net_urlopen env url = Inr resp
              \<and> failure resp = Some e \<and> fail_open env (staging_path d fn) = None
              \<and> files w0 (staging_path d fn) \<noteq> Some Dir \<and> (\<forall>n. fail_write env n = None)
              \<and> fail_close env = None
            \<longrightarrow> res = Inl (Failed e))"
    (is "?E1 \<and> ?E2 \<and> ?core")
proof -
  have E1: ?E1 and E2: ?E2
    using gettempdir_frame[OF assms(3)] by auto
  have core: ?core
  proof (cases "files w0 (cache_path d fn) = None")
    case False
    from get_hit[OF assms(1,2,3)] False assms(4)
    have "res = Inr (cache_path d fn)" and "files w' = files w0"
      by (auto simp: cache_path_def log_def)
    with False show ?thesis by auto
  next
    case True
    define fp where "fp = cache_path d fn"
    define tp where "tp = staging_path d fn"
    define w1 where "w1 = log (Exists fp) w0"
    have ne: "tp \<noteq> fp" unfolding tp_def fp_def by (rule staging_neq)
    have f1: "files w1 = files w0" by (simp add: w1_def log_def)
    obtain r w2 where tb: "try_block env url tp fp w1 = (r, w2)" by (meson surj_pair)
    from get_miss_paths[OF assms(1,2,3) True tb[unfolded fp_def tp_def w1_def]] assms(4)
    have res: "res = (case r of Some e \<Rightarrow> Inl e | None \<Rightarrow> Inr fp)"
      and w': "w' = finally_block env tp fp w2"
      unfolding fp_def tp_def by simp_all
    show ?thesis
    proof (cases r)
      case None
      from try_block_ok[OF tb[unfolded None] ne] obtain resp where
        net: "net_urlopen env url = Inr resp" and fl: "failure resp = None"
        and f2: "files w2 = (files w1)(tp := None, fp \<mapsto> File (body resp))"
        by blast
      have "files w' = files w2" unfolding w' finally_files using f2 by simp
      then have fin: "files w' fp = Some (File (body resp))" using f2 by simp
      have "res = Inr fp" using res None by simp
      with fin net fl show ?thesis unfolding fp_def[symmetric] tp_def[symmetric] by auto
    next
      case (Some e)
      from try_block_err[OF tb[unfolded Some]]
      have off: "\<forall>q. q \<noteq> tp \<longrightarrow> files w2 q = files w1 q"
        and at: "files w2 tp = files w1 tp \<or> (\<exists>c. files w2 tp = Some (File c))"
        by blast+
      have fp2: "files w2 fp = None" using off ne f1 True by (simp add: fp_def)
      have fin: "files w' fp = None"
        unfolding w' finally_files using fp2 ne by auto
      have r: "res = Inl e" using res Some by simp
      have kind: "(\<exists>e'. res = Inl (Failed e'))
                   \<or> (\<exists>e'. net_urlopen env url = Inl e' \<and> res = Inl (raised e'))"
        using try_block_err_kind[OF tb[unfolded Some]] r by auto
      have c: "files w' tp = None"
        if "fail_remove env = None" and "files w0 tp \<noteq> Some Dir"
      proof -
        have "files w2 tp = None \<or> (\<exists>c. files w2 tp = Some (File c))"
        proof (cases "files w0 tp")
          case None
          then show ?thesis using at f1 by auto
        next
          case (Some a)
          then show ?thesis using at f1 that(2) by (cases a) auto
        qed
        then show ?thesis unfolding w' finally_files using fp2 that(1) by auto
      qed
      have d1: "e = raised e0" if "net_urlopen env url = Inl e0" for e0
        using try_block_urlopen_fails[OF that, of tp fp w1] tb Some by simp
      have d2: "e = Failed e1"
        if "net_urlopen env url = Inr resp" and "failure resp = Some e1"
          and "fail_open env tp = None" and "files w0 tp \<noteq> Some Dir"
          and "\<forall>n. fail_write env n = None" and "fail_close env = None" for resp e1
      proof -
        have nd: "files w1 tp \<noteq> Some Dir" using that(4) f1 by simp
        from try_block_no_fs_fault[OF that(1,3) nd that(5), of fp] that(2,6) tb Some
        show ?thesis by auto
      qed
      have A: "files w' fp = files w0 fp
                 \<or> (\<exists>resp. net_urlopen env url = Inr resp \<and> failure resp = None
                       \<and> files w' fp = Some (File (body resp))
                       \<and> (missing resp = []
                            \<longrightarrow> files w' fp = Some (File (body resp @ missing resp))))"
        using fin True by (simp add: fp_def)
      have B: "(res = Inr fp \<and> files w' fp \<noteq> None)
                 \<or> (((\<exists>e. res = Inl (Failed e))
                       \<or> (\<exists>e. net_urlopen env url = Inl e \<and> res = Inl (raised e)))
                     \<and> files w' fp = None)"
        using fin kind by simp
      have C: "fail_remove env = None \<and> files w0 tp \<noteq> Some Dir \<and> files w' fp = None
                 \<longrightarrow> files w' tp = None"
        using c by simp
      have D1: "\<forall>e. files w0 fp = None \<and> net_urlopen env url = Inl e \<longrightarrow> res = Inl (raised e)"
        using d1 r by auto
      have D2: "\<forall>resp e. files w0 fp = None \<and> net_urlopen env url = Inr resp
                \<and> failure resp = Some e \<and> fail_open env tp = None
                \<and> files w0 tp \<noteq> Some Dir \<and> (\<forall>n. fail_write env n = None)
                \<and> fail_close env = None
              \<longrightarrow> res = Inl (Failed e)"
      proof (intro allI impI)
        fix resp e1
        assume h: "files w0 fp = None \<and> net_urlopen env url = Inr resp
                \<and> failure resp = Some e1 \<and> fail_open env tp = None
                \<and> files w0 tp \<noteq> Some Dir \<and> (\<forall>n. fail_write env n = None)
                \<and> fail_close env = None"
        then have "e = Failed e1" by (intro d2[of resp e1]) simp_all
        with r show "res = Inl (Failed e1)" by simp
      qed
      from A B C D1 D2 show ?thesis
        unfolding fp_def tp_def by (intro conjI)
    qed
  qed
  show ?thesis by (rule conjI[OF E1 conjI[OF E2 core]])
qed

theorem staging_invariant_witness:
  "fst (get_pdf_local_path reset_env warm_world example_url)
     = Inl (Failed (OSError ''ConnectionResetError''))
   \<and> files (snd (get_pdf_local_path reset_env warm_world example_url)) example_path = None
   \<and> files (snd (get_pdf_local_path reset_env warm_world example_url))
       (example_path @ py ''.part'') = None"
proof -
  let ?resp = "\<lparr>body = py ''%PDF'', failure = Some (OSError ''ConnectionResetError''),
                missing = py ''-1.4''\<rparr>"
  obtain res w' where g: "get_pdf_local_path reset_env warm_world example_url = (res, w')"
    by (meson surj_pair)
  note inv = staging_invariant[OF example_valid example_cache_filename gettempdir_warm_empty g,
      unfolded example_cache_path example_staging_path]
  have pre: "files warm_world example_path = None \<and> net_urlopen reset_env example_url = Inr ?resp
      \<and> failure ?resp = Some (OSError ''ConnectionResetError'')
      \<and> fail_open reset_env (example_path @ py ''.part'') = None
      \<and> files warm_world (example_path @ py ''.part'') \<noteq> Some Dir
      \<and> (\<forall>n. fail_write reset_env n = None) \<and> fail_close reset_env = None"
    by (simp add: reset_env_def example_env_def warm_world_def)
  from inv pre have r: "res = Inl (Failed (OSError ''ConnectionResetError''))" by blast
  with inv have a: "files w' example_path = None" by auto
  have "fail_remove reset_env = None \<and> files warm_world (example_path @ py ''.part'') \<noteq> Some Dir"
    by (simp add: reset_env_def example_env_def warm_world_def)
  with inv a have "files w' (example_path @ py ''.part'') = None" by blast
  with r a g show ?thesis by simp
qed

text \<open>
  C2. Two calls with the same URL that both return a path return the same path, whatever
  the network answers and whatever the files are, as long as \<open>tempfile.gettempdir()\<close>
  gives both calls the same directory.
\<close>

theorem same_url_same_path:
  assumes "fst (tempfile_gettempdir env1 w1) = fst (tempfile_gettempdir env2 w2)"
      and "fst (get_pdf_local_path env1 w1 url) = Inr p1"
      and "fst (get_pdf_local_path env2 w2 url) = Inr p2"
  shows "p1 = p2"
proof -
  from get_Inr_path[OF assms(2)] obtain fn1 d1 where
    a: "cache_filename url = Inr fn1" "fst (tempfile_gettempdir env1 w1) = Inr d1"
       "p1 = cache_path d1 fn1"
    by blast
  from get_Inr_path[OF assms(3)] obtain fn2 d2 where
    b: "cache_filename url = Inr fn2" "fst (tempfile_gettempdir env2 w2) = Inr d2"
       "p2 = cache_path d2 fn2"
    by blast
  from a(1) b(1) have "fn1 = fn2" by simp
  moreover from a(2) b(2) assms(1) have "d1 = d2" by simp
  ultimately show ?thesis using a(3) b(3) by simp
qed

theorem same_url_same_path_witness:
  "fst (tempfile_gettempdir example_env cold_world)
     = fst (tempfile_gettempdir reset_env
              (warm_world\<lparr>files := [example_path \<mapsto> File (py ''old'')]\<rparr>))
   \<and> fst (get_pdf_local_path example_env cold_world example_url) = Inr example_path
   \<and> fst (get_pdf_local_path reset_env
        (warm_world\<lparr>files := [example_path \<mapsto> File (py ''old'')]\<rparr>) example_url)
       = Inr example_path"
proof -
  let ?w = "warm_world\<lparr>files := [example_path \<mapsto> File (py ''old'')]\<rparr>"
  have "tempfile_gettempdir example_env (cold_world\<lparr>files := Map.empty\<rparr>)
          = (Inr (py ''/tmp''),
             \<lparr>files = Map.empty,
              trace = [OpenExcl (py ''/tmp/k3x_9qzt''), Write (py ''/tmp/k3x_9qzt'') 4,
                       Close (py ''/tmp/k3x_9qzt''), Remove (py ''/tmp/k3x_9qzt'')],
              tempdir_cache = Some (py ''/tmp'')\<rparr>)"
    by (rule gettempdir_cold_example) simp
  then have c: "fst (tempfile_gettempdir example_env cold_world) = Inr (py ''/tmp'')"
    by (simp add: cold_world_def)
  have t: "fst (tempfile_gettempdir example_env cold_world) = fst (tempfile_gettempdir reset_env ?w)"
    using c by (simp add: gettempdir_warm)
  have a: "fst (get_pdf_local_path example_env cold_world example_url) = Inr example_path"
    using end_to_end_example by auto
  have hit: "files ?w (os_path_join (py ''/tmp'') example_filename) \<noteq> None"
    using example_cache_path by (simp add: cache_path_def)
  have b: "fst (get_pdf_local_path reset_env ?w example_url)
             = Inr (cache_path (py ''/tmp'') example_filename)"
    using get_hit[OF example_valid example_cache_filename gettempdir_warm hit]
    by (simp add: cache_path_def)
  from same_url_same_path[OF t a b]
  have "example_path = cache_path (py ''/tmp'') example_filename" .
  with t a b show ?thesis by simp
qed

text \<open>
  C3. A returned path is the directory that \<open>tempfile.gettempdir()\<close> gives, joined
  (\<open>os.path.join\<close>) with the SHA-256 digest of the UTF-8 bytes of the URL as given,
  written as 64 lowercase hexadecimal digits, followed by \<open>.pdf\<close>.
\<close>

theorem path_is_tmpdir_sha256_pdf:
  assumes "fst (get_pdf_local_path env w url) = Inr p"
  shows "\<exists>bs d. encode_utf8 url = Inr bs \<and> fst (tempfile_gettempdir env w) = Inr d
           \<and> p = os_path_join d (hexdigest bs @ py ''.pdf'')
           \<and> length (hexdigest bs) = 64 \<and> list_all lower_hex (hexdigest bs)
           \<and> (d \<noteq> [] \<and> last d \<noteq> 47 \<longrightarrow> p = d @ py ''/'' @ hexdigest bs @ py ''.pdf'')"
proof -
  from get_Inr_path[OF assms] obtain fn d where
    fn: "cache_filename url = Inr fn" and d: "fst (tempfile_gettempdir env w) = Inr d"
    and p: "p = cache_path d fn" by blast
  from cache_filename_Inr[OF fn] obtain bs where
    bs: "encode_utf8 url = Inr bs" "fn = hexdigest bs @ py ''.pdf''" by blast
  have "d \<noteq> [] \<and> last d \<noteq> 47 \<longrightarrow> p = d @ py ''/'' @ hexdigest bs @ py ''.pdf''"
    using hexdigest_no_slash[of bs "py ''.pdf''"]
    by (simp add: p bs(2) cache_path_def os_path_join_def py_def)
  then show ?thesis
    using bs d p length_hexdigest lower_hex_hexdigest by (auto simp: cache_path_def)
qed

theorem path_is_tmpdir_sha256_pdf_witness:
  "example_path = py ''/tmp'' @ py ''/'' @ hexdigest example_url @ py ''.pdf''
   \<and> length (hexdigest example_url) = 64 \<and> list_all lower_hex (hexdigest example_url)"
proof -
  from path_is_tmpdir_sha256_pdf[OF example_download] obtain bs d where
    bs: "encode_utf8 example_url = Inr bs"
    and d: "fst (tempfile_gettempdir example_env warm_world) = Inr d"
    and len: "length (hexdigest bs) = 64" and hex: "list_all lower_hex (hexdigest bs)"
    and imp: "d \<noteq> [] \<and> last d \<noteq> 47
                \<longrightarrow> example_path = d @ py ''/'' @ hexdigest bs @ py ''.pdf''"
    by blast
  have e: "bs = example_url" using bs example_encode by simp
  have "d = py ''/tmp''" using d by (simp add: gettempdir_warm_empty)
  moreover have "py ''/tmp'' \<noteq> [] \<and> last (py ''/tmp'') \<noteq> 47" by (simp add: py_def)
  ultimately show ?thesis using imp len hex e by simp
qed

text \<open>
  C4, as stated, fails: a URL that parses and has scheme http can still make the function
  raise a \<open>ValueError\<close>. A lone surrogate cannot be encoded as UTF-8, so
  \<open>url.encode("utf-8")\<close> raises \<open>UnicodeEncodeError\<close>, a subclass of \<open>ValueError\<close>. And
  for a URL that is not ASCII, such as \<open>http://127.0.0.1:9/\<close> followed by U+00E9, it is
  \<open>urlopen\<close> that raises \<open>UnicodeEncodeError\<close>, after the cache path has been probed.
\<close>

theorem value_error_counterexample:
  "urlparse example_env (py ''http://x/'' @ [55296]) = Inr (py ''http'')
   \<and> get_pdf_local_path example_env warm_world (py ''http://x/'' @ [55296])
       = (Inl (UnicodeEncodeError 55296), warm_world)
   \<and> is_ValueError (UnicodeEncodeError 55296)
   \<and> urlparse ascii_only_env (py ''http://127.0.0.1:9/'' @ [233]) = Inr (py ''http'')
   \<and> encode_utf8 (py ''http://127.0.0.1:9/'' @ [233])
       = Inr (py ''http://127.0.0.1:9/'' @ [195, 169])
   \<and> fst (get_pdf_local_path ascii_only_env warm_world (py ''http://127.0.0.1:9/'' @ [233]))
       = Inl (UrlopenValueError ''UnicodeEncodeError'')
   \<and> is_ValueError (UrlopenValueError ''UnicodeEncodeError'')
   \<and> trace (snd (get_pdf_local_path ascii_only_env warm_world
                    (py ''http://127.0.0.1:9/'' @ [233])))
       = [Exists (py ''/tmp/aa68816d1387600a6850bcc66c29ef75df48ed2e62ced7bd123f3f930c327978.pdf''),
          UrlOpen (py ''http://127.0.0.1:9/'' @ [233]),
          Exists (py ''/tmp/aa68816d1387600a6850bcc66c29ef75df48ed2e62ced7bd123f3f930c327978.pdf.part'')]"
proof -
  let ?u = "py ''http://127.0.0.1:9/'' @ [233]"
  let ?p = "py ''/tmp/aa68816d1387600a6850bcc66c29ef75df48ed2e62ced7bd123f3f930c327978.pdf''"
  let ?fn = "py ''aa68816d1387600a6850bcc66c29ef75df48ed2e62ced7bd123f3f930c327978.pdf''"
  have u: "urlparse example_env (py ''http://x/'' @ [55296]) = Inr (py ''http'')"
    by (simp add: urlparse_def py_def lstrip_c0_def remove_unsafe_def split_scheme_def
          is_ascii_alpha_def scheme_char_def lower_char_def check_netloc_def splitnetloc_def
          is_ascii_def)
  have c: "cache_filename (py ''http://x/'' @ [55296]) = Inl (UnicodeEncodeError 55296)"
    by (simp add: cache_filename_def py_def utf8_char_def)
  have s: "get_pdf_local_path example_env warm_world (py ''http://x/'' @ [55296])
             = (Inl (UnicodeEncodeError 55296), warm_world)"
    by (rule get_unencodable[OF valid_http_x c])
  have u2: "urlparse ascii_only_env ?u = Inr (py ''http'')"
    by (simp add: urlparse_def py_def lstrip_c0_def remove_unsafe_def split_scheme_def
          is_ascii_alpha_def scheme_char_def lower_char_def check_netloc_def splitnetloc_def
          is_ascii_def)
  have v2: "valid_url ascii_only_env ?u" by (simp add: valid_url_def u2)
  have e2: "encode_utf8 ?u = Inr (py ''http://127.0.0.1:9/'' @ [195, 169])"
    by (simp add: py_def utf8_char_def)
  have c2: "cache_filename ?u = Inr ?fn"
    unfolding cache_filename_def e2 sum.case digest_non_ascii by (simp add: py_def)
  have j: "cache_path (py ''/tmp'') ?fn = ?p"
    by (simp add: cache_path_def os_path_join_def py_def)
  have sp: "staging_path (py ''/tmp'') ?fn = ?p @ py ''.part''"
    by (simp add: staging_path_def j)
  have miss: "files warm_world (cache_path (py ''/tmp'') ?fn) = None"
    by (simp add: warm_world_def)
  have net: "net_urlopen ascii_only_env ?u = Inl (UrlValueError ''UnicodeEncodeError'')"
    by (simp add: ascii_only_env_def is_ascii_def py_def)
  have absent: "files (log (UrlOpen ?u) (log (Exists ?p) warm_world)) (?p @ py ''.part'') = None"
    by (simp add: log_def warm_world_def)
  have g: "get_pdf_local_path ascii_only_env warm_world ?u
             = (Inl (UrlopenValueError ''UnicodeEncodeError''),
                log (Exists (?p @ py ''.part'')) (log (UrlOpen ?u) (log (Exists ?p) warm_world)))"
    using get_miss_urlopen_fails[OF v2 c2 gettempdir_warm_empty miss net]
    unfolding j sp finally_trace_absent[OF absent] by simp
  have r2: "fst (get_pdf_local_path ascii_only_env warm_world ?u)
              = Inl (UrlopenValueError ''UnicodeEncodeError'')"
    unfolding g by simp
  have t2: "trace (snd (get_pdf_local_path ascii_only_env warm_world ?u))
              = [Exists ?p, UrlOpen ?u, Exists (?p @ py ''.part'')]"
    unfolding g by (simp add: log_def warm_world_def)
  have p2: "?p @ py ''.part''
      = py ''/tmp/aa68816d1387600a6850bcc66c29ef75df48ed2e62ced7bd123f3f930c327978.pdf.part''"
    by (simp add: py_def)
  have i1: "is_ValueError (UnicodeEncodeError 55296)"
    and i2: "is_ValueError (UrlopenValueError ''UnicodeEncodeError'')" by simp_all
  from u s i1 u2 e2 r2 i2 t2[unfolded p2] show ?thesis by (intro conjI)
qed

text \<open>
  C4, amended. The function raises a \<open>ValueError\<close> exactly when the URL fails to parse,
  or its parsed scheme is neither http nor https, or the URL holds a surrogate code point
  (U+D800 to U+DFFF), or the cache path does not exist and \<open>urlopen\<close> raises a
  \<open>ValueError\<close>. A parse error is passed on as it is, a wrong scheme gives the error of
  line 22. A \<open>ValueError\<close> that does not come from \<open>urlopen\<close> is raised before anything
  has touched the network or the file system: the world is the one the call started
  with. The one from \<open>urlopen\<close> is raised after the temporary directory has been asked
  for, the cache path probed and \<open>urlopen\<close> called.
\<close>

theorem value_error_iff:
  "((\<exists>e. fst (get_pdf_local_path env w url) = Inl e \<and> is_ValueError e)
      = ((\<exists>e. urlparse env url = Inl e)
         \<or> (\<exists>s. urlparse env url = Inr s \<and> s \<noteq> py ''http'' \<and> s \<noteq> py ''https'')
         \<or> (\<exists>c \<in> set url. 55296 \<le> c \<and> c \<le> 57343)
         \<or> (\<exists>fn d w0 m. cache_filename url = Inr fn
               \<and> tempfile_gettempdir env w = (Inr d, w0)
               \<and> files w0 (cache_path d fn) = None
               \<and> net_urlopen env url = Inl (UrlValueError m))))
   \<and> (\<forall>e. urlparse env url = Inl e \<longrightarrow> get_pdf_local_path env w url = (Inl e, w))
   \<and> (\<forall>s. urlparse env url = Inr s \<and> s \<noteq> py ''http'' \<and> s \<noteq> py ''https''
          \<longrightarrow> get_pdf_local_path env w url = (Inl (UnsupportedScheme s), w))
   \<and> (\<forall>e. fst (get_pdf_local_path env w url) = Inl e \<and> is_ValueError e
            \<and> (\<forall>m. e \<noteq> UrlopenValueError m)
          \<longrightarrow> snd (get_pdf_local_path env w url) = w)
   \<and> (\<forall>m. fst (get_pdf_local_path env w url) = Inl (UrlopenValueError m)
          \<longrightarrow> net_urlopen env url = Inl (UrlValueError m)
              \<and> (\<exists>fn d w0 evs. cache_filename url = Inr fn
                    \<and> tempfile_gettempdir env w = (Inr d, w0)
                    \<and> trace (snd (get_pdf_local_path env w url))
                        = trace w0 @ [Exists (cache_path d fn), UrlOpen url] @ evs))"
    (is "?iff \<and> ?parse \<and> ?scheme \<and> ?early \<and> ?late")
proof -
  have parse: ?parse
    by (simp add: get_pdf_local_path_def)
  have scheme: ?scheme
    by (simp add: get_pdf_local_path_def)
  have invalid: "(\<not> valid_url env url)
      = ((\<exists>e. urlparse env url = Inl e)
         \<or> (\<exists>s. urlparse env url = Inr s \<and> s \<noteq> py ''http'' \<and> s \<noteq> py ''https''))"
    by (auto simp: valid_url_def split: sum.splits)
  have enc: "(\<exists>e. cache_filename url = Inl e) = (\<exists>c \<in> set url. 55296 \<le> c \<and> c \<le> 57343)"
    using encode_utf8_ok[of url]
    by (cases "encode_utf8 url") (auto simp: cache_filename_def)
  have enc_err: "\<exists>c. e = UnicodeEncodeError c" if "cache_filename url = Inl e" for e
    using that encode_utf8_error[of url e]
    by (cases "encode_utf8 url") (auto simp: cache_filename_def)
  have rest: "?iff \<and> ?early \<and> ?late"
  proof (cases "valid_url env url")
    case False
    from get_invalid_kind[OF False, of w] invalid False show ?thesis by auto
  next
    case True
    show ?thesis
    proof (cases "cache_filename url")
      case (Inl e)
      from enc_err[OF Inl] obtain c where e: "e = UnicodeEncodeError c" by blast
      from get_unencodable[OF True Inl, of w] e enc Inl show ?thesis by auto
    next
      case (Inr fn)
      have nosur: "\<not> (\<exists>c \<in> set url. 55296 \<le> c \<and> c \<le> 57343)" using enc Inr by auto
      have noinv: "\<not> ((\<exists>e. urlparse env url = Inl e)
         \<or> (\<exists>s. urlparse env url = Inr s \<and> s \<noteq> py ''http'' \<and> s \<noteq> py ''https''))"
        using invalid True by simp
      obtain r0 w0 where td: "tempfile_gettempdir env w = (r0, w0)" by (meson surj_pair)
      show ?thesis
      proof (cases r0)
        case (Inl e0)
        from get_notempdir[OF True Inr td[unfolded Inl]] td Inl Inr nosur noinv
        show ?thesis by auto
      next
        case d: (Inr d)
        note td' = td[unfolded d]
        from get_valid_result[OF True Inr td']
        consider
          (hit) "files w0 (cache_path d fn) \<noteq> None"
            "get_pdf_local_path env w url
               = (Inr (cache_path d fn), log (Exists (cache_path d fn)) w0)"
          | (urlopen) e' where "files w0 (cache_path d fn) = None"
            "net_urlopen env url = Inl e'"
            "get_pdf_local_path env w url =
               (Inl (raised e'),
                finally_block env (staging_path d fn) (cache_path d fn)
                  (log (UrlOpen url) (log (Exists (cache_path d fn)) w0)))"
          | (later) resp where "files w0 (cache_path d fn) = None"
            "net_urlopen env url = Inr resp"
            "fst (get_pdf_local_path env w url) = Inr (cache_path d fn)
               \<or> (\<exists>e'. fst (get_pdf_local_path env w url) = Inl (Failed e'))"
          by blast
        then show ?thesis
        proof cases
          case hit
          have i: ?iff using hit td' Inr nosur noinv by auto
          have e: ?early using hit by simp
          have l: ?late using hit by simp
          from i e l show ?thesis by (intro conjI)
        next
          case urlopen
          obtain evs where ft: "trace (finally_block env (staging_path d fn) (cache_path d fn)
                  (log (UrlOpen url) (log (Exists (cache_path d fn)) w0)))
                = trace (log (UrlOpen url) (log (Exists (cache_path d fn)) w0))
                    @ Exists (staging_path d fn) # evs"
            using finally_trace by blast
          have i: ?iff
            using urlopen td' Inr nosur noinv by (auto simp: raised_ValueError)
          have e: ?early
            using urlopen by (cases e') auto
          have l: ?late
          proof (intro allI impI)
            fix m assume "fst (get_pdf_local_path env w url) = Inl (UrlopenValueError m)"
            with urlopen(3) have "e' = UrlValueError m" by (cases e') simp_all
            moreover have "trace (snd (get_pdf_local_path env w url))
                = trace w0 @ [Exists (cache_path d fn), UrlOpen url]
                    @ (Exists (staging_path d fn) # evs)"
              unfolding urlopen(3) snd_conv ft by (simp add: log_def)
            ultimately show "net_urlopen env url = Inl (UrlValueError m)
              \<and> (\<exists>fn d w0 evs. cache_filename url = Inr fn
                    \<and> tempfile_gettempdir env w = (Inr d, w0)
                    \<and> trace (snd (get_pdf_local_path env w url))
                        = trace w0 @ [Exists (cache_path d fn), UrlOpen url] @ evs)"
              using urlopen(2) Inr td' by blast
          qed
          from i e l show ?thesis by (intro conjI)
        next
          case later
          have i: ?iff using later td' Inr nosur noinv by auto
          have e: ?early using later by auto
          have l: ?late using later by auto
          from i e l show ?thesis by (intro conjI)
        qed
      qed
    qed
  qed
  then have i: ?iff and e: ?early and l: ?late by blast+
  from i parse scheme e l show ?thesis by (intro conjI)
qed

theorem value_error_iff_witness:
  "get_pdf_local_path example_env warm_world (py ''ftp://host/file'')
     = (Inl (UnsupportedScheme (py ''ftp'')), warm_world)
   \<and> (\<exists>e. fst (get_pdf_local_path example_env warm_world (py ''ftp://host/file'')) = Inl e
           \<and> is_ValueError e)"
proof -
  have u: "urlparse example_env (py ''ftp://host/file'') = Inr (py ''ftp'')"
    by (simp add: urlparse_def py_def lstrip_c0_def remove_unsafe_def split_scheme_def
          is_ascii_alpha_def scheme_char_def lower_char_def check_netloc_def splitnetloc_def
          is_ascii_def)
  have n: "py ''ftp'' \<noteq> py ''http'' \<and> py ''ftp'' \<noteq> py ''https''" by (simp add: py_def)
  from value_error_iff[of example_env warm_world "py ''ftp://host/file''"] u n
  have "get_pdf_local_path example_env warm_world (py ''ftp://host/file'')
          = (Inl (UnsupportedScheme (py ''ftp'')), warm_world)"
    by blast
  then show ?thesis by simp
qed

text \<open>
  C5. For a valid URL, when a regular file already exists at the computed cache path,
  the function returns that path at once: after \<open>tempfile.gettempdir()\<close>, the only
  recorded operation is the existence probe of that path. So there is no network access
  (the directory lookup does none either, and in a process that knows its temporary
  directory it does nothing at all), and the content of the file is not looked at (the
  statement holds for every content \<open>c\<close>).
\<close>

theorem cache_hit_returns_path:
  assumes "valid_url env url" and "cache_filename url = Inr fn"
      and "tempfile_gettempdir env w = (Inr d, w0)"
      and "files w (cache_path d fn) = Some (File c)"
  shows "get_pdf_local_path env w url =
           (Inr (cache_path d fn), w0\<lparr>trace := trace w0 @ [Exists (cache_path d fn)]\<rparr>)
       \<and> (tempdir_cache w \<noteq> None \<longrightarrow> w0 = w)
       \<and> (\<exists>evs. trace w0 = trace w @ evs \<and> list_all (\<lambda>ev. \<not> network_event ev) evs)
       \<and> files w0 (cache_path d fn) = Some (File c)"
proof -
  note fr = gettempdir_frame[OF assms(3)]
  have f0: "files w0 (cache_path d fn) = Some (File c)" using fr assms(4) by simp
  then have "files w0 (os_path_join d fn) \<noteq> None" by (simp add: cache_path_def)
  from get_hit[OF assms(1,2,3) this]
  have g: "get_pdf_local_path env w url =
           (Inr (cache_path d fn), w0\<lparr>trace := trace w0 @ [Exists (cache_path d fn)]\<rparr>)"
    by (simp add: cache_path_def log_def)
  have c: "tempdir_cache w \<noteq> None \<longrightarrow> w0 = w" using fr by blast
  from fr obtain evs where "trace w0 = trace w @ evs" "list_all scratch_event evs" by blast
  then have n: "\<exists>evs. trace w0 = trace w @ evs \<and> list_all (\<lambda>ev. \<not> network_event ev) evs"
    using scratch_events_not_network by blast
  from g c n f0 show ?thesis by (intro conjI)
qed

theorem cache_hit_returns_path_witness:
  "get_pdf_local_path
     (example_env\<lparr>net_urlopen := (\<lambda>u. Inl (UrlFailed (URLError ''unreachable'')))\<rparr>)
     \<lparr>files = [example_path \<mapsto> File (py ''not a pdf'')], trace = [],
      tempdir_cache = Some (py ''/tmp'')\<rparr> example_url
   = (Inr example_path,
      \<lparr>files = [example_path \<mapsto> File (py ''not a pdf'')], trace = [Exists example_path],
       tempdir_cache = Some (py ''/tmp'')\<rparr>)"
proof -
  let ?env = "example_env\<lparr>net_urlopen := (\<lambda>u. Inl (UrlFailed (URLError ''unreachable'')))\<rparr>"
  let ?w = "\<lparr>files = [example_path \<mapsto> File (py ''not a pdf'')], trace = [],
             tempdir_cache = Some (py ''/tmp'')\<rparr>"
  have td: "tempfile_gettempdir ?env ?w = (Inr (py ''/tmp''), ?w)"
    by (rule gettempdir_cached) simp
  have f: "files ?w (cache_path (py ''/tmp'') example_filename) = Some (File (py ''not a pdf''))"
    by (simp add: example_cache_path)
  show ?thesis
    using cache_hit_returns_path[OF example_valid example_cache_filename td f]
    by (simp add: example_cache_path)
qed

text \<open>
  C6. On a cache miss with a server that delivers the whole body and a file system that
  does not fail, the body is read in calls of 8192 bytes and written chunk by chunk
  (each write at most 8192 bytes) to the staging file \<open><path>.part\<close>, which is opened
  with mode \<open>wb\<close> and so loses any content left over from before; after the file is
  closed, a single \<open>os.replace\<close> moves it to the final path, the final file then holds
  the body, the staging file is gone, and the final path is returned.
\<close>

theorem cache_miss_downloads:
  assumes "valid_url env url" and "cache_filename url = Inr fn"
      and "tempfile_gettempdir env w = (Inr d, w0)"
      and "files w0 (cache_path d fn) = None"
      and "files w0 (staging_path d fn) \<noteq> Some Dir"
      and "net_urlopen env url = Inr resp" and "failure resp = None"
      and "fail_open env (staging_path d fn) = None" and "\<forall>n. fail_write env n = None"
      and "fail_close env = None" and "fail_replace env = None"
  shows "\<exists>w' evs. get_pdf_local_path env w url = (Inr (cache_path d fn), w')
           \<and> files w' = (files w0)(staging_path d fn := None,
                                    cache_path d fn \<mapsto> File (body resp))
           \<and> trace w' = trace w0 @ [Exists (cache_path d fn), UrlOpen url,
                                      OpenWB (staging_path d fn)] @ evs
                           @ [Close (staging_path d fn),
                              Replace (staging_path d fn) (cache_path d fn),
                              Exists (staging_path d fn)]
           \<and> list_all (chunk_event (staging_path d fn)) evs"
  using assms by (rule download_ok)

theorem cache_miss_downloads_witness:
  "fst (get_pdf_local_path example_env
      (warm_world\<lparr>files := [example_path @ py ''.part'' \<mapsto> File (py ''stale bytes'')]\<rparr>)
      example_url) = Inr example_path
   \<and> files (snd (get_pdf_local_path example_env
      (warm_world\<lparr>files := [example_path @ py ''.part'' \<mapsto> File (py ''stale bytes'')]\<rparr>)
      example_url)) = [example_path \<mapsto> File (py ''%PDF-1.4'')]"
proof -
  let ?w = "warm_world\<lparr>files := [example_path @ py ''.part'' \<mapsto> File (py ''stale bytes'')]\<rparr>"
  let ?resp = "\<lparr>body = py ''%PDF-1.4'', failure = None, missing = []\<rparr>"
  note p = example_cache_path and s = example_staging_path
  have h3: "files ?w (cache_path (py ''/tmp'') example_filename) = None"
    using example_paths_differ by (simp add: p)
  have h4: "files ?w (staging_path (py ''/tmp'') example_filename) \<noteq> Some Dir"
    by (simp add: s)
  have h5: "net_urlopen example_env example_url = Inr ?resp" by (simp add: example_env_def)
  have h6: "failure ?resp = None" by simp
  have h7: "fail_open example_env (staging_path (py ''/tmp'') example_filename) = None"
    by (simp add: example_env_def)
  have h8: "\<forall>n. fail_write example_env n = None" by (simp add: example_env_def)
  have h9: "fail_close example_env = None" and h10: "fail_replace example_env = None"
    by (simp_all add: example_env_def)
  from cache_miss_downloads[OF example_valid example_cache_filename gettempdir_warm
      h3 h4 h5 h6 h7 h8 h9 h10]
  obtain w' where r: "get_pdf_local_path example_env ?w example_url = (Inr example_path, w')"
    and f: "files w' = (files ?w)(example_path @ py ''.part'' := None,
                                  example_path \<mapsto> File (body ?resp))"
    unfolding p s by blast
  have "files w' = [example_path \<mapsto> File (py ''%PDF-1.4'')]"
    unfolding f by (rule ext) simp
  with r show ?thesis by simp
qed

text \<open>
  C7. The URL is not normalised: the hash input is the UTF-8 encoding of the URL as
  given, and different URL strings have different encodings. Two URLs get the same cache
  file name, and the same path in a directory, exactly when the SHA-256 digests of their
  encodings are equal; so URLs that differ as strings get different file names and
  paths, up to a collision of SHA-256, which the specification sets aside as
  negligible. The witness is the pair \<open>http://x/a\<close> and \<open>http://x/a/\<close>.
\<close>

theorem distinct_urls_distinct_paths:
  assumes "cache_filename u1 = Inr fn1" and "cache_filename u2 = Inr fn2"
  shows "(cache_path d fn1 = cache_path d fn2) = (fn1 = fn2)
       \<and> (\<exists>b1 b2. encode_utf8 u1 = Inr b1 \<and> encode_utf8 u2 = Inr b2
              \<and> (fn1 = fn2) = (hexdigest b1 = hexdigest b2)
              \<and> (wf_str u1 \<and> wf_str u2 \<and> u1 \<noteq> u2 \<longrightarrow> b1 \<noteq> b2))"
proof -
  from cache_filename_Inr[OF assms(1)] obtain b1 where
    b1: "encode_utf8 u1 = Inr b1" "fn1 = hexdigest b1 @ py ''.pdf''" by blast
  from cache_filename_Inr[OF assms(2)] obtain b2 where
    b2: "encode_utf8 u2 = Inr b2" "fn2 = hexdigest b2 @ py ''.pdf''" by blast
  have "(cache_path d fn1 = cache_path d fn2) = (fn1 = fn2)"
    unfolding cache_path_def b1(2) b2(2)
    by (rule os_path_join_inject) (rule hexdigest_no_slash)+
  moreover have "(fn1 = fn2) = (hexdigest b1 = hexdigest b2)"
    by (simp add: b1(2) b2(2))
  moreover have "wf_str u1 \<and> wf_str u2 \<and> u1 \<noteq> u2 \<longrightarrow> b1 \<noteq> b2"
    using encode_utf8_inject[of u1 u2 b1] b1(1) b2(1) by auto
  ultimately show ?thesis using b1(1) b2(1) by blast
qed

theorem distinct_urls_distinct_paths_witness:
  "cache_filename (py ''http://x/a'')
     = Inr (py ''dbf012bfe46a5772cde8cc40c84fac435f8cf833c21bad4608db7bdbf1ecf9aa.pdf'')
   \<and> cache_filename (py ''http://x/a/'')
     = Inr (py ''5c9fbae9b1dcb117444493f0c8c8eb22dcca0beb87d0154e094df1948d375b80.pdf'')
   \<and> cache_path (py ''/tmp'')
        (py ''dbf012bfe46a5772cde8cc40c84fac435f8cf833c21bad4608db7bdbf1ecf9aa.pdf'')
     \<noteq> cache_path (py ''/tmp'')
        (py ''5c9fbae9b1dcb117444493f0c8c8eb22dcca0beb87d0154e094df1948d375b80.pdf'')
   \<and> encode_utf8 (py ''http://x/a'') \<noteq> encode_utf8 (py ''http://x/a/'')"
proof -
  have e1: "encode_utf8 (py ''http://x/a'') = Inr (py ''http://x/a'')"
    by (rule encode_utf8_ascii) (simp add: py_def)
  have e2: "encode_utf8 (py ''http://x/a/'') = Inr (py ''http://x/a/'')"
    by (rule encode_utf8_ascii) (simp add: py_def)
  have f1: "cache_filename (py ''http://x/a'')
     = Inr (py ''dbf012bfe46a5772cde8cc40c84fac435f8cf833c21bad4608db7bdbf1ecf9aa.pdf'')"
    unfolding cache_filename_def e1 sum.case digest_x_a by (simp add: py_def)
  have f2: "cache_filename (py ''http://x/a/'')
     = Inr (py ''5c9fbae9b1dcb117444493f0c8c8eb22dcca0beb87d0154e094df1948d375b80.pdf'')"
    unfolding cache_filename_def e2 sum.case digest_x_a_slash by (simp add: py_def)
  have ne: "py ''dbf012bfe46a5772cde8cc40c84fac435f8cf833c21bad4608db7bdbf1ecf9aa.pdf''
      \<noteq> py ''5c9fbae9b1dcb117444493f0c8c8eb22dcca0beb87d0154e094df1948d375b80.pdf''"
    by (simp add: py_def)
  have wf: "wf_str (py ''http://x/a'') \<and> wf_str (py ''http://x/a/'')
              \<and> py ''http://x/a'' \<noteq> py ''http://x/a/''"
    by (simp add: wf_str_def py_def)
  from distinct_urls_distinct_paths[OF f1 f2, of "py ''/tmp''"] ne wf
  have "cache_path (py ''/tmp'')
          (py ''dbf012bfe46a5772cde8cc40c84fac435f8cf833c21bad4608db7bdbf1ecf9aa.pdf'')
        \<noteq> cache_path (py ''/tmp'')
          (py ''5c9fbae9b1dcb117444493f0c8c8eb22dcca0beb87d0154e094df1948d375b80.pdf'')"
    and "encode_utf8 (py ''http://x/a'') \<noteq> encode_utf8 (py ''http://x/a/'')"
    by auto
  with f1 f2 show ?thesis by blast
qed

text \<open>
  C8. When the \<open>try\<close> block fails with an error \<open>e\<close>, the caller receives \<open>e\<close>,
  whatever the cleanup does. In particular, when \<open>os.remove\<close> fails, the failed
  cleanup changes no file, it is attempted whenever the staging file exists (the trace
  ends with the two probes and the \<open>Remove\<close>), and its error is dropped.
\<close>

theorem remove_failure_swallowed:
  assumes "valid_url env url" and "cache_filename url = Inr fn"
      and "tempfile_gettempdir env w = (Inr d, w0)"
      and "files w0 (cache_path d fn) = None"
      and "try_block env url (staging_path d fn) (cache_path d fn)
             (log (Exists (cache_path d fn)) w0) = (Some e, w2)"
  shows "fst (get_pdf_local_path env w url) = Inl e
       \<and> (fail_remove env \<noteq> None \<longrightarrow>
            files (snd (get_pdf_local_path env w url)) = files w2
            \<and> (files w2 (staging_path d fn) \<noteq> None \<longrightarrow>
                 trace (snd (get_pdf_local_path env w url)) =
                   trace w2 @ [Exists (staging_path d fn), Exists (cache_path d fn),
                               Remove (staging_path d fn)]))"
proof -
  have r: "get_pdf_local_path env w url =
             (Inl e, finally_block env (staging_path d fn) (cache_path d fn) w2)"
    by (rule get_miss_failed[OF assms(1-5)])
  have "files w2 (cache_path d fn) = files (log (Exists (cache_path d fn)) w0) (cache_path d fn)"
    using try_block_err[OF assms(5)] staging_neq[of d fn] by metis
  then have fp: "files w2 (cache_path d fn) = None"
    using assms(4) by (simp add: log_def)
  show ?thesis
  proof (cases "fail_remove env")
    case None
    then show ?thesis using r by simp
  next
    case (Some e')
    show ?thesis
      unfolding r finally_remove_fails[OF Some fp] using Some by (simp add: log_def)
  qed
qed

theorem remove_failure_swallowed_witness:
  "fst (get_pdf_local_path (reset_env\<lparr>fail_remove := Some ''EPERM''\<rparr>)
          warm_world example_url) = Inl (Failed (OSError ''ConnectionResetError''))
   \<and> files (snd (get_pdf_local_path (reset_env\<lparr>fail_remove := Some ''EPERM''\<rparr>)
          warm_world example_url)) (example_path @ py ''.part'') = Some (File (py ''%PDF''))"
proof -
  let ?env = "reset_env\<lparr>fail_remove := Some ''EPERM''\<rparr>"
  let ?resp = "\<lparr>body = py ''%PDF'', failure = Some (OSError ''ConnectionResetError''),
                missing = py ''-1.4''\<rparr>"
  have miss: "files warm_world (cache_path (py ''/tmp'') example_filename) = None"
    by (simp add: warm_world_def)
  have net: "net_urlopen ?env example_url = Inr ?resp" by (simp add: reset_env_def)
  have b: "body ?resp = py ''%PDF''" by simp
  have op: "fail_open ?env (example_path @ py ''.part'') = None"
    by (simp add: reset_env_def example_env_def)
  have wr: "\<forall>n. fail_write ?env n = None" by (simp add: reset_env_def example_env_def)
  have cl: "fail_close ?env = None" by (simp add: reset_env_def example_env_def)
  from four_byte_download[OF net b op wr]
  obtain w2 where tb: "try_block ?env example_url (staging_path (py ''/tmp'') example_filename)
        (cache_path (py ''/tmp'') example_filename)
        (log (Exists (cache_path (py ''/tmp'') example_filename)) warm_world)
      = (Some (Failed (OSError ''ConnectionResetError'')), w2)"
    and f2: "files w2 = [example_path @ py ''.part'' \<mapsto> File (py ''%PDF'')]"
    unfolding cl by auto
  have rm: "fail_remove ?env \<noteq> None" by simp
  from remove_failure_swallowed[OF example_valid example_cache_filename gettempdir_warm_empty
      miss tb] rm
  have "fst (get_pdf_local_path ?env warm_world example_url)
          = Inl (Failed (OSError ''ConnectionResetError''))"
    and "files (snd (get_pdf_local_path ?env warm_world example_url)) = files w2"
    by blast+
  then show ?thesis using f2 by simp
qed

text \<open>
  C9, as stated, fails: a URL whose scheme is http or https up to letter case can still
  make the function raise a \<open>ValueError\<close>. The parser rejects \<open>HTTP://[x/\<close> (a bracket
  without its partner), and \<open>HTTPS://x/\<close> followed by a lone surrogate cannot be
  encoded.
\<close>

theorem scheme_case_counterexample:
  "map lower_char (py ''HTTP'') = py ''http''
   \<and> get_pdf_local_path example_env warm_world (py ''HTTP://[x/'')
       = (Inl (ParseError ''Invalid IPv6 URL''), warm_world)
   \<and> is_ValueError (ParseError ''Invalid IPv6 URL'')
   \<and> map lower_char (py ''HTTPS'') = py ''https''
   \<and> urlparse example_env (py ''HTTPS://x/'' @ [55296]) = Inr (py ''https'')
   \<and> get_pdf_local_path example_env warm_world (py ''HTTPS://x/'' @ [55296])
       = (Inl (UnicodeEncodeError 55296), warm_world)
   \<and> is_ValueError (UnicodeEncodeError 55296)"
proof -
  have l1: "map lower_char (py ''HTTP'') = py ''http''"
    and l2: "map lower_char (py ''HTTPS'') = py ''https''"
    by (simp_all add: py_def lower_char_def)
  have u1: "urlparse example_env (py ''HTTP://[x/'') = Inl (ParseError ''Invalid IPv6 URL'')"
    by (simp add: urlparse_def py_def lstrip_c0_def remove_unsafe_def split_scheme_def
          is_ascii_alpha_def scheme_char_def lower_char_def check_netloc_def splitnetloc_def
          is_ascii_def)
  have g1: "get_pdf_local_path example_env warm_world (py ''HTTP://[x/'')
       = (Inl (ParseError ''Invalid IPv6 URL''), warm_world)"
    by (simp add: get_pdf_local_path_def u1)
  have u2: "urlparse example_env (py ''HTTPS://x/'' @ [55296]) = Inr (py ''https'')"
    by (simp add: urlparse_def py_def lstrip_c0_def remove_unsafe_def split_scheme_def
          is_ascii_alpha_def scheme_char_def lower_char_def check_netloc_def splitnetloc_def
          is_ascii_def)
  have v2: "valid_url example_env (py ''HTTPS://x/'' @ [55296])"
    by (simp add: valid_url_def u2)
  have c2: "cache_filename (py ''HTTPS://x/'' @ [55296]) = Inl (UnicodeEncodeError 55296)"
    by (simp add: cache_filename_def py_def utf8_char_def)
  have g2: "get_pdf_local_path example_env warm_world (py ''HTTPS://x/'' @ [55296])
       = (Inl (UnicodeEncodeError 55296), warm_world)"
    by (rule get_unencodable[OF v2 c2])
  have i1: "is_ValueError (ParseError ''Invalid IPv6 URL'')"
    and i2: "is_ValueError (UnicodeEncodeError 55296)" by simp_all
  from l1 g1 i1 l2 u2 g2 i2 show ?thesis by (intro conjI)
qed

text \<open>
  C9, amended. The scheme check does not depend on letter case. For a URL \<open>S:rest\<close>
  whose scheme \<open>S\<close> is http or https up to letter case, the parser answers exactly as
  for the URL with the scheme in lowercase, the parsed scheme is the lowercase one, the
  URL passes lines 20 to 22 unless the parser itself rejects it (which depends on
  \<open>rest\<close> only), and the function never raises the unsupported-scheme error of line 22.
\<close>

theorem scheme_case_insensitive:
  assumes "map lower_char S = py ''http'' \<or> map lower_char S = py ''https''"
  shows "urlparse env (S @ 58 # rest) = urlparse env (map lower_char S @ 58 # rest)
       \<and> (\<forall>s. urlparse env (S @ 58 # rest) = Inr s \<longrightarrow> s = map lower_char S)
       \<and> (valid_url env (S @ 58 # rest) = (\<forall>e. urlparse env (S @ 58 # rest) \<noteq> Inl e))
       \<and> (\<forall>s. fst (get_pdf_local_path env w (S @ 58 # rest)) \<noteq> Inl (UnsupportedScheme s))"
proof -
  have low: "map lower_char (map lower_char S) = py ''http''
           \<or> map lower_char (map lower_char S) = py ''https''"
    using assms by (simp only: map_lower_char_idem)
  have same: "urlparse env (S @ 58 # rest) = urlparse env (map lower_char S @ 58 # rest)"
    unfolding urlparse_cased[OF assms] urlparse_cased[OF low] map_lower_char_idem
    by (rule refl)
  have sch: "\<forall>s. urlparse env (S @ 58 # rest) = Inr s \<longrightarrow> s = map lower_char S"
    unfolding urlparse_cased[OF assms] by (auto split: if_splits option.splits)
  have val: "valid_url env (S @ 58 # rest) = (\<forall>e. urlparse env (S @ 58 # rest) \<noteq> Inl e)"
    using sch assms by (cases "urlparse env (S @ 58 # rest)") (auto simp: valid_url_def)
  have "\<forall>s. fst (get_pdf_local_path env w (S @ 58 # rest)) \<noteq> Inl (UnsupportedScheme s)"
  proof (cases "valid_url env (S @ 58 # rest)")
    case True
    show ?thesis
    proof (cases "cache_filename (S @ 58 # rest)")
      case (Inl e)
      then obtain c where "e = UnicodeEncodeError c"
        using encode_utf8_error[of "S @ 58 # rest" e]
        by (cases "encode_utf8 (S @ 58 # rest)") (auto simp: cache_filename_def)
      with get_unencodable[OF True Inl, of w] show ?thesis by simp
    next
      case (Inr fn)
      obtain r0 w0 where td: "tempfile_gettempdir env w = (r0, w0)" by (meson surj_pair)
      show ?thesis
      proof (cases r0)
        case (Inl e0)
        from get_notempdir[OF True Inr td[unfolded Inl]] show ?thesis by simp
      next
        case d: (Inr d)
        have "raised e' \<noteq> UnsupportedScheme s" for e' s by (cases e') simp_all
        with get_valid_result[OF True Inr td[unfolded d]] show ?thesis by auto
      qed
    qed
  next
    case False
    with val obtain e where e: "urlparse env (S @ 58 # rest) = Inl e" by blast
    then obtain m where "e = ParseError m" using urlparse_error by blast
    with e show ?thesis by (simp add: get_pdf_local_path_def)
  qed
  with same sch val show ?thesis by blast
qed

theorem scheme_case_insensitive_witness:
  "urlparse example_env (py ''HTTP://host/x'') = Inr (py ''http'')
   \<and> valid_url example_env (py ''HTTP://host/x'')"
proof -
  have l: "map lower_char (py ''HTTP'') = py ''http''" by (simp add: py_def lower_char_def)
  have s: "py ''HTTP'' @ 58 # py ''//host/x'' = py ''HTTP://host/x''"
    and s': "map lower_char (py ''HTTP'') @ 58 # py ''//host/x'' = py ''http://host/x''"
    by (simp_all add: py_def lower_char_def)
  have low: "urlparse example_env (py ''http://host/x'') = Inr (py ''http'')"
    by (simp add: urlparse_def py_def lstrip_c0_def remove_unsafe_def split_scheme_def
          is_ascii_alpha_def scheme_char_def lower_char_def check_netloc_def splitnetloc_def
          is_ascii_def)
  from scheme_case_insensitive[of "py ''HTTP''" example_env "py ''//host/x''" warm_world] l
  have "urlparse example_env (py ''HTTP://host/x'') = urlparse example_env (py ''http://host/x'')"
    and "valid_url example_env (py ''HTTP://host/x'')
           = (\<forall>e. urlparse example_env (py ''HTTP://host/x'') \<noteq> Inl e)"
    unfolding s s' by simp_all
  with low show ?thesis by simp
qed

text \<open>
  C10, as stated, fails. In a process that has not asked for the temporary directory
  before, \<open>tempfile.gettempdir()\<close> on line 29 looks for a usable directory: it creates a
  scratch file in \<open>/tmp\<close>, writes four bytes to it, closes it and unlinks it. This
  happens on a cache hit too, before the existence probe of the cache path.
\<close>

theorem cache_hit_frame_counterexample:
  "tempdir_cache cached_cold_world = None
   \<and> trace cached_cold_world = []
   \<and> files cached_cold_world example_path = Some (File (py ''%PDF-1.4''))
   \<and> fst (get_pdf_local_path example_env cached_cold_world example_url) = Inr example_path
   \<and> trace (snd (get_pdf_local_path example_env cached_cold_world example_url))
       = [OpenExcl (py ''/tmp/k3x_9qzt''), Write (py ''/tmp/k3x_9qzt'') 4,
          Close (py ''/tmp/k3x_9qzt''), Remove (py ''/tmp/k3x_9qzt''),
          Exists example_path]"
proof -
  let ?fs = "[example_path \<mapsto> File (py ''%PDF-1.4'')]"
  let ?w0 = "\<lparr>files = ?fs,
       trace = [OpenExcl (py ''/tmp/k3x_9qzt''), Write (py ''/tmp/k3x_9qzt'') 4,
                Close (py ''/tmp/k3x_9qzt''), Remove (py ''/tmp/k3x_9qzt'')],
       tempdir_cache = Some (py ''/tmp'')\<rparr>"
  have c: "tempdir_cache cached_cold_world = None" and t: "trace cached_cold_world = []"
    and f: "files cached_cold_world example_path = Some (File (py ''%PDF-1.4''))"
    by (simp_all add: cached_cold_world_def cold_world_def)
  have ne: "example_path \<noteq> py ''/tmp/k3x_9qzt''"
    by (simp add: example_path_def example_filename_def py_def)
  have a: "?fs (py ''/tmp/k3x_9qzt'') = None" using ne by simp
  have td: "tempfile_gettempdir example_env cached_cold_world = (Inr (py ''/tmp''), ?w0)"
    unfolding cached_cold_world_def using a by (rule gettempdir_cold_example)
  have hit: "files ?w0 (os_path_join (py ''/tmp'') example_filename) \<noteq> None"
    using example_cache_path by (simp add: cache_path_def)
  from get_hit[OF example_valid example_cache_filename td hit]
  have g: "get_pdf_local_path example_env cached_cold_world example_url
             = (Inr example_path, log (Exists example_path) ?w0)"
    using example_cache_path by (simp add: cache_path_def)
  have r: "fst (get_pdf_local_path example_env cached_cold_world example_url) = Inr example_path"
    unfolding g by simp
  have tr: "trace (snd (get_pdf_local_path example_env cached_cold_world example_url))
       = [OpenExcl (py ''/tmp/k3x_9qzt''), Write (py ''/tmp/k3x_9qzt'') 4,
          Close (py ''/tmp/k3x_9qzt''), Remove (py ''/tmp/k3x_9qzt''),
          Exists example_path]"
    unfolding g by (simp add: log_def)
  from c t f r tr show ?thesis by (intro conjI)
qed

text \<open>
  C10, amended. On a cache hit (the existence probe of the cache path answers true, for a
  file or a directory) the call returns the cache path and, after
  \<open>tempfile.gettempdir()\<close>, the existence probe is its only operation on the file
  system or the network. In a process that knows its temporary directory already,
  \<open>gettempdir\<close> does nothing. Otherwise it only creates, writes, closes and unlinks
  scratch files: it leaves every existing file as it is, and all files when no unlink
  fails.
\<close>

theorem cache_hit_frame:
  assumes "valid_url env url" and "cache_filename url = Inr fn"
      and "tempfile_gettempdir env w = (Inr d, w0)"
      and "fst (os_path_exists (cache_path d fn) w0)"
  shows "get_pdf_local_path env w url
           = (Inr (cache_path d fn), w0\<lparr>trace := trace w0 @ [Exists (cache_path d fn)]\<rparr>)
       \<and> (tempdir_cache w \<noteq> None \<longrightarrow> w0 = w)
       \<and> (\<exists>evs. trace w0 = trace w @ evs \<and> list_all scratch_event evs)
       \<and> (\<forall>q. files w q \<noteq> None \<longrightarrow> files w0 q = files w q)
       \<and> ((\<forall>p. fail_scratch_unlink env p = None) \<longrightarrow> files w0 = files w)"
proof -
  have "files w0 (os_path_join d fn) \<noteq> None"
    using assms(4) by (simp add: os_path_exists_def cache_path_def)
  from get_hit[OF assms(1,2,3) this]
  have g: "get_pdf_local_path env w url
           = (Inr (cache_path d fn), w0\<lparr>trace := trace w0 @ [Exists (cache_path d fn)]\<rparr>)"
    by (simp add: cache_path_def log_def)
  show ?thesis by (rule conjI[OF g gettempdir_frame[OF assms(3)]])
qed

theorem cache_hit_frame_witness:
  "get_pdf_local_path example_env
       (warm_world\<lparr>files := [example_path \<mapsto> Dir,
                              example_path @ py ''.part'' \<mapsto> File (py ''junk'')]\<rparr>) example_url
     = (Inr example_path,
        \<lparr>files = [example_path \<mapsto> Dir, example_path @ py ''.part'' \<mapsto> File (py ''junk'')],
         trace = [Exists example_path], tempdir_cache = Some (py ''/tmp'')\<rparr>)"
proof -
  let ?w = "warm_world\<lparr>files := [example_path \<mapsto> Dir,
                                  example_path @ py ''.part'' \<mapsto> File (py ''junk'')]\<rparr>"
  have hit: "fst (os_path_exists (cache_path (py ''/tmp'') example_filename) ?w)"
    using example_paths_differ by (simp add: example_cache_path os_path_exists_def)
  show ?thesis
    using cache_hit_frame[OF example_valid example_cache_filename gettempdir_warm hit]
    by (simp add: example_cache_path warm_world_def)
qed

end
